theory Spec2Isabelle
  imports Complex_Main "HOL-Library.Word" "HOL-Library.Sublist"
begin

chapter \<open>A supervised line-protocol OCR worker: model of package paddleocr\<close>

text \<open>
  The development embeds the Go package \<^verbatim>\<open>paddleocr\<close> (the last revision of
  \<^verbatim>\<open>paddleocr.go\<close> together with \<^verbatim>\<open>utils.go\<close>). Go strings and byte slices are
  \<^typ>\<open>string\<close>s (lists of 8-bit characters, UTF-8 where text is meant), nil-able
  pointers are \<^typ>\<open>'a option\<close>, an \<^verbatim>\<open>error\<close> return is a \<^verbatim>\<open>go_error option\<close>
  (\<open>None\<close> is \<^verbatim>\<open>nil\<close>). The first part holds the model, the second the theorems.
\<close>

section \<open>The model\<close>

subsection \<open>\<^verbatim>\<open>OcrArgs\<close> and \<^verbatim>\<open>OcrArgs.CmdString\<close>\<close>

text \<open>
  The struct, in declaration order. \<^verbatim>\<open>*bool\<close> and \<^verbatim>\<open>*int32\<close> are pointers; a nil
  pointer is the zero value of the field.
\<close>

record OcrArgs =
  Cls :: "bool option"
  EnableMkldnn :: "bool option"
  LimitSideLen :: "32 word option"
  UseAngleCls :: "bool option"
  ConfigPath :: string

text \<open>
  \<^verbatim>\<open>CmdString\<close> walks the fields by reflection. The model lists what reflection yields:
  for field \<open>i\<close> its \<^verbatim>\<open>paddleocr\<close> tag and its value with its dynamic type.
\<close>

datatype field_value = PtrBool "bool option" | PtrInt32 "32 word option" | StringVal string

definition OcrArgs_fields :: "OcrArgs \<Rightarrow> (string \<times> field_value) list" where
  "OcrArgs_fields a =
     [(''cls'', PtrBool (Cls a)),
      (''enable_mkldnn'', PtrBool (EnableMkldnn a)),
      (''limit_side_len'', PtrInt32 (LimitSideLen a)),
      (''use_angle_cls'', PtrBool (UseAngleCls a)),
      (''config_path'', StringVal (ConfigPath a))]"

text \<open>\<^verbatim>\<open>reflect.Value.IsZero\<close>: a nil pointer, the empty string.\<close>

fun IsZero :: "field_value \<Rightarrow> bool" where
  "IsZero (PtrBool p) = (p = None)"
| "IsZero (PtrInt32 p) = (p = None)"
| "IsZero (StringVal s) = (s = [])"

text \<open>\<^verbatim>\<open>%v\<close> of an \<^verbatim>\<open>int32\<close>: its decimal digits, with a minus sign when negative.\<close>

definition digit_char :: "nat \<Rightarrow> char" where
  "digit_char d = char_of (48 + d)"

fun decimal :: "nat \<Rightarrow> string" where
  "decimal n = (if n < 10 then [digit_char n] else decimal (n div 10) @ [digit_char (n mod 10)])"

declare decimal.simps [simp del]

definition Sprint_int :: "int \<Rightarrow> string" where
  "Sprint_int i = (if i < 0 then ''-'' @ decimal (nat (- i)) else decimal (nat i))"

text \<open>
  One turn of the loop of \<^verbatim>\<open>CmdString\<close>, on the string \<open>s\<close> built so far: a zero field
  and a field without tag are skipped; a \<^verbatim>\<open>*bool\<close> appends \<^verbatim>\<open>tag=1 \<close> or \<^verbatim>\<open>tag=0 \<close>;
  any other pointer appends \<^verbatim>\<open>tag=\<close>, the pointee under \<^verbatim>\<open>%v\<close> and a blank; a
  non-pointer appends \<^verbatim>\<open>tag=\<close>, the value under \<^verbatim>\<open>%v\<close> and a blank.
\<close>

fun CmdString_field :: "string \<Rightarrow> string \<times> field_value \<Rightarrow> string" where
  "CmdString_field s (tag, v) =
     (if IsZero v then s
      else if tag = [] then s
      else (case v of
              PtrBool (Some b) \<Rightarrow> (if b then s @ tag @ ''=1 '' else s @ tag @ ''=0 '')
            | PtrInt32 (Some n) \<Rightarrow> s @ tag @ ''='' @ Sprint_int (sint n) @ '' ''
            | StringVal x \<Rightarrow> s @ tag @ ''='' @ x @ '' ''
            | _ \<Rightarrow> s))"

text \<open>
  \<^verbatim>\<open>strings.TrimSpace\<close> removes the leading and the trailing white-space runes of a
  UTF-8 string, white space being \<^verbatim>\<open>unicode.IsSpace\<close>: six ASCII characters, and the
  runes U+0085, U+00A0, U+1680, U+2000 to U+200A, U+2028, U+2029, U+202F, U+205F and
  U+3000, listed here by their UTF-8 encodings. A byte that starts no such encoding
  is not white space.
\<close>

definition asciiSpace :: "char \<Rightarrow> bool" where
  "asciiSpace c = (c \<in> set [CHR 0x09, CHR 0x0A, CHR 0x0B, CHR 0x0C, CHR 0x0D, CHR 0x20])"

definition unicode_space_utf8 :: "string list" where
  "unicode_space_utf8 =
     [[CHR 0xC2, CHR 0x85], [CHR 0xC2, CHR 0xA0], [CHR 0xE1, CHR 0x9A, CHR 0x80],
      [CHR 0xE2, CHR 0x80, CHR 0x80], [CHR 0xE2, CHR 0x80, CHR 0x81], [CHR 0xE2, CHR 0x80, CHR 0x82],
      [CHR 0xE2, CHR 0x80, CHR 0x83], [CHR 0xE2, CHR 0x80, CHR 0x84], [CHR 0xE2, CHR 0x80, CHR 0x85],
      [CHR 0xE2, CHR 0x80, CHR 0x86], [CHR 0xE2, CHR 0x80, CHR 0x87], [CHR 0xE2, CHR 0x80, CHR 0x88],
      [CHR 0xE2, CHR 0x80, CHR 0x89], [CHR 0xE2, CHR 0x80, CHR 0x8A], [CHR 0xE2, CHR 0x80, CHR 0xA8],
      [CHR 0xE2, CHR 0x80, CHR 0xA9], [CHR 0xE2, CHR 0x80, CHR 0xAF], [CHR 0xE2, CHR 0x81, CHR 0x9F],
      [CHR 0xE3, CHR 0x80, CHR 0x80]]"

definition IsSpace :: "string \<Rightarrow> bool" where
  "IsSpace r = (case r of [c] \<Rightarrow> asciiSpace c | _ \<Rightarrow> r \<in> set unicode_space_utf8)"

text \<open>The width in bytes of the white-space rune a string starts with, or ends with; 0 when there is none.\<close>

definition leading_space :: "string \<Rightarrow> nat" where
  "leading_space s =
     (if IsSpace (take 1 s) then 1 else if IsSpace (take 2 s) then 2
      else if IsSpace (take 3 s) then 3 else 0)"

definition trailing_space :: "string \<Rightarrow> nat" where
  "trailing_space s =
     (let n = length s in
      if IsSpace (drop (n - 1) s) then 1 else if IsSpace (drop (n - 2) s) then 2
      else if IsSpace (drop (n - 3) s) then 3 else 0)"

definition ascii :: "char \<Rightarrow> bool" where
  "ascii c = ((of_char c :: nat) < 128)"

lemma unicode_space_shape:
  "list_all (\<lambda>r. (length r = 2 \<or> length r = 3) \<and> list_all (\<lambda>c. \<not> ascii c) r) unicode_space_utf8"
  unfolding unicode_space_utf8_def ascii_def by simp

lemma unicode_space_mem:
  "r \<in> set unicode_space_utf8 \<Longrightarrow> (length r = 2 \<or> length r = 3) \<and> (\<forall>c\<in>set r. \<not> ascii c)"
  using unicode_space_shape by (simp add: list_all_iff)

lemma asciiSpace_ascii: "asciiSpace c \<Longrightarrow> ascii c"
  unfolding asciiSpace_def ascii_def by auto

lemma IsSpace_cases:
  "IsSpace r \<longleftrightarrow> (\<exists>c. r = [c] \<and> asciiSpace c) \<or> r \<in> set unicode_space_utf8"
proof (cases r)
  case Nil
  then show ?thesis using unicode_space_mem [of r] by (auto simp: IsSpace_def)
next
  case (Cons c cs)
  show ?thesis
  proof (cases cs)
    case Nil
    have "\<not> [c] \<in> set unicode_space_utf8" using unicode_space_mem [of "[c]"] by auto
    with Nil Cons show ?thesis by (simp add: IsSpace_def)
  next
    case (Cons d ds)
    with \<open>r = c # cs\<close> show ?thesis by (simp add: IsSpace_def)
  qed
qed

lemma IsSpace_nonempty: "IsSpace r \<Longrightarrow> r \<noteq> []"
  using unicode_space_mem [of r] by (auto simp: IsSpace_cases)

lemma IsSpace_Nil [simp]: "\<not> IsSpace []"
  using IsSpace_nonempty by blast

lemma leading_space_nonempty: "leading_space s \<noteq> 0 \<Longrightarrow> s \<noteq> []"
  by (auto simp: leading_space_def)

lemma trailing_space_nonempty: "trailing_space s \<noteq> 0 \<Longrightarrow> s \<noteq> []"
  by (auto simp: trailing_space_def)

function trim_left :: "string \<Rightarrow> string" where
  "trim_left s = (if leading_space s = 0 then s else trim_left (drop (leading_space s) s))"
  by pat_completeness auto
termination
  using leading_space_nonempty by (relation "measure length") fastforce+

function trim_right :: "string \<Rightarrow> string" where
  "trim_right s = (if trailing_space s = 0 then s else trim_right (take (length s - trailing_space s) s))"
  by pat_completeness auto
termination
  using trailing_space_nonempty by (relation "measure length") fastforce+

declare trim_left.simps [simp del] trim_right.simps [simp del]

definition TrimSpace :: "string \<Rightarrow> string" where
  "TrimSpace s = trim_right (trim_left s)"

text \<open>\<^verbatim>\<open>func (o OcrArgs) CmdString() string\<close>: the loop over the fields, then \<^verbatim>\<open>TrimSpace\<close>.\<close>

definition CmdString :: "OcrArgs \<Rightarrow> string" where
  "CmdString a = TrimSpace (foldl CmdString_field [] (OcrArgs_fields a))"

text \<open>
  The specification's words for the same string: every non-default field as
  \<^verbatim>\<open>name=value\<close>, booleans as 1 or 0, in declaration order, joined by single blanks.
\<close>

definition flag_text :: "bool \<Rightarrow> string" where
  "flag_text b = (if b then ''1'' else ''0'')"

definition name_value :: "string \<Rightarrow> string \<Rightarrow> string" where
  "name_value k v = k @ ''='' @ v"

definition spec_fields :: "OcrArgs \<Rightarrow> string list" where
  "spec_fields a =
     (case Cls a of None \<Rightarrow> [] | Some b \<Rightarrow> [name_value ''cls'' (flag_text b)]) @
     (case EnableMkldnn a of None \<Rightarrow> [] | Some b \<Rightarrow> [name_value ''enable_mkldnn'' (flag_text b)]) @
     (case LimitSideLen a of None \<Rightarrow> [] | Some n \<Rightarrow> [name_value ''limit_side_len'' (Sprint_int (sint n))]) @
     (case UseAngleCls a of None \<Rightarrow> [] | Some b \<Rightarrow> [name_value ''use_angle_cls'' (flag_text b)]) @
     (if ConfigPath a = [] then [] else [name_value ''config_path'' (ConfigPath a)])"

fun Join_sp :: "string list \<Rightarrow> string" where
  "Join_sp [] = []"
| "Join_sp [r] = r"
| "Join_sp (r # r' # rs) = r @ '' '' @ Join_sp (r' # rs)"

subsection \<open>Errors, panics and decoded JSON\<close>

text \<open>
  A Go \<^verbatim>\<open>error\<close> is told by its message. A call returns, panics, or blocks for ever;
  a function with results \<^verbatim>\<open>(T, error)\<close> returns a pair whose second part is \<open>None\<close>
  for \<^verbatim>\<open>nil\<close>.
\<close>

datatype go_error = GoError string

fun Error :: "go_error \<Rightarrow> string" where
  "Error (GoError m) = m"

datatype 'a outcome = Panics string | Hangs | Returns 'a

text \<open>
  The values \<^verbatim>\<open>encoding/json\<close> stores in an \<^verbatim>\<open>any\<close>: \<^verbatim>\<open>nil\<close>, \<^verbatim>\<open>bool\<close>,
  \<^verbatim>\<open>float64\<close>, \<^verbatim>\<open>string\<close>, \<^verbatim>\<open>[]any\<close> and \<^verbatim>\<open>map[string]any\<close>. A \<^verbatim>\<open>float64\<close> is
  given by the rational number it holds. Indexing a map with a key it does not hold
  yields \<^verbatim>\<open>nil\<close>.
\<close>

datatype any = Nil | Bool bool | Float64 rat | String string | Slice "any list"
  | Map "(string \<times> any) list"

type_synonym gomap = "(string \<times> any) list"

definition index :: "gomap \<Rightarrow> string \<Rightarrow> any" where
  "index m k = (case map_of m k of None \<Rightarrow> Nil | Some v \<Rightarrow> v)"

subsection \<open>\<^verbatim>\<open>Data\<close>, \<^verbatim>\<open>Result\<close> and \<^verbatim>\<open>ParseResult\<close>\<close>

text \<open>\<^verbatim>\<open>Score\<close> is a \<^verbatim>\<open>float32\<close>, given by the rational number it holds.\<close>

record Data =
  Rect :: "int list list"
  Score :: rat
  Text :: string

record Result =
  Code :: int
  Msg :: string
  Data :: "Data list"

definition Result_zero :: Result where
  "Result_zero = \<lparr>Code = 0, Msg = [], Data = []\<rparr>"

definition CodeSuccess :: int where "CodeSuccess = 100"

definition CodeNoText :: int where "CodeNoText = 101"

text \<open>
  \<^verbatim>\<open>ParseResult\<close> calls the standard library, which is not part of the package. The
  calls are parameters of the model:
  \<^item> \<open>json_Unmarshal_map\<close> is \<^verbatim>\<open>json.Unmarshal(rawData, &resp)\<close> for a nil
    \<^verbatim>\<open>map[string]any\<close>: an error, or the map it leaves in \<^verbatim>\<open>resp\<close>;
  \<^item> \<open>json_Marshal\<close> is \<^verbatim>\<open>json.Marshal(v)\<close> for an \<^verbatim>\<open>any\<close>;
  \<^item> \<open>json_String\<close> is the string literal \<^verbatim>\<open>json.Marshal\<close> writes for a Go string;
  \<^item> \<open>json_Unmarshal_Data\<close> is \<^verbatim>\<open>json.Unmarshal(str, &r)\<close> for a zero \<^verbatim>\<open>Data\<close>;
  \<^item> \<open>FormatFloat\<close> is how \<^verbatim>\<open>%v\<close> prints a \<^verbatim>\<open>float64\<close>;
  \<^item> \<open>int_out_of_range\<close> is what \<^verbatim>\<open>int(f)\<close> yields for a \<^verbatim>\<open>float64\<close> whose integer
    part does not fit \<^verbatim>\<open>int\<close>, which the language leaves to the implementation.
\<close>

record golib =
  json_Unmarshal_map :: "string \<Rightarrow> go_error + gomap"
  json_Marshal :: "any \<Rightarrow> go_error + string"
  json_String :: "string \<Rightarrow> string"
  json_Unmarshal_Data :: "string \<Rightarrow> go_error + Data"
  FormatFloat :: "rat \<Rightarrow> string"
  int_out_of_range :: "rat \<Rightarrow> int"

text \<open>\<^verbatim>\<open>int(f)\<close>: the fraction is discarded; \<^verbatim>\<open>int\<close> has 64 bits.\<close>

definition int_of_float64 :: "golib \<Rightarrow> rat \<Rightarrow> int" where
  "int_of_float64 L f =
     (let t = (if f < 0 then - \<lfloor>- f\<rfloor> else \<lfloor>f\<rfloor>)
      in if - (2 ^ 63) \<le> t \<and> t < 2 ^ 63 then t else int_out_of_range L f)"

text \<open>
  \<^verbatim>\<open>fmt.Sprintf("%v", x)\<close> for the values above: a string prints as itself, \<^verbatim>\<open>nil\<close> as
  \<^verbatim>\<open><nil>\<close>, a slice as its elements between brackets, a map as \<^verbatim>\<open>map[k:v ...]\<close> in
  key order.
\<close>

fun Join_with :: "string \<Rightarrow> string list \<Rightarrow> string" where
  "Join_with sep [] = []"
| "Join_with sep [r] = r"
| "Join_with sep (r # r' # rs) = r @ sep @ Join_with sep (r' # rs)"

fun Sprint_v :: "golib \<Rightarrow> any \<Rightarrow> string" where
  "Sprint_v L Nil = ''<nil>''"
| "Sprint_v L (Bool b) = (if b then ''true'' else ''false'')"
| "Sprint_v L (Float64 f) = FormatFloat L f"
| "Sprint_v L (String s) = s"
| "Sprint_v L (Slice vs) = ''['' @ Join_with '' '' (map (Sprint_v L) vs) @ '']''"
| "Sprint_v L (Map kvs) =
     ''map['' @ Join_with '' '' (map (\<lambda>(k, v). k @ '':'' @ Sprint_v L v) kvs) @ '']''"

text \<open>The dynamic type, as the panic of a failed type assertion names it.\<close>

fun type_name :: "any \<Rightarrow> string" where
  "type_name Nil = ''nil''"
| "type_name (Bool b) = ''bool''"
| "type_name (Float64 f) = ''float64''"
| "type_name (String s) = ''string''"
| "type_name (Slice vs) = ''[]interface {}''"
| "type_name (Map kvs) = ''map[string]interface {}''"

text \<open>
  The loop of \<^verbatim>\<open>ParseResult\<close> over the elements of \<^verbatim>\<open>data\<close>: each element is
  marshalled and unmarshalled into a fresh \<^verbatim>\<open>Data\<close>, which is appended to
  \<^verbatim>\<open>resData\<close>; the first error ends the call with \<^verbatim>\<open>result\<close> as it is then.
\<close>

fun ParseResult_items :: "golib \<Rightarrow> Result \<Rightarrow> Data list \<Rightarrow> any list \<Rightarrow> (Result \<times> go_error option) outcome" where
  "ParseResult_items L result resData [] = Returns (result\<lparr>Data := resData\<rparr>, None)"
| "ParseResult_items L result resData (v # data) =
     (case json_Marshal L v of
        Inl err \<Rightarrow> Returns (result, Some err)
      | Inr str \<Rightarrow>
          (case json_Unmarshal_Data L str of
             Inl err \<Rightarrow> Returns (result, Some err)
           | Inr r \<Rightarrow> ParseResult_items L result (resData @ [r]) data))"

text \<open>
  \<^verbatim>\<open>func ParseResult(rawData []byte) (Result, error)\<close>. The type assertion
  \<^verbatim>\<open>resp["code"].(float64)\<close> has no second result, so it panics on any other dynamic
  type. After \<^verbatim>\<open>resp["data"] == nil\<close> has been excluded the key is present, and the
  first \<^verbatim>\<open>"data is not array"\<close> cannot be returned.
\<close>

definition ParseResult :: "golib \<Rightarrow> string \<Rightarrow> (Result \<times> go_error option) outcome" where
  "ParseResult L rawData =
     (case json_Unmarshal_map L rawData of
        Inl err \<Rightarrow> Returns (Result_zero, Some err)
      | Inr resp \<Rightarrow>
          if index resp ''code'' = Nil
          then Returns (Result_zero, Some (GoError ''no code in response''))
          else (case index resp ''code'' of
                  Float64 code \<Rightarrow>
                    if code \<noteq> 100
                    then Returns (Result_zero\<lparr>Code := int_of_float64 L code,
                                   Msg := Sprint_v L (index resp ''data'')\<rparr>, None)
                    else if index resp ''data'' = Nil
                    then Returns (Result_zero, Some (GoError ''no data in response''))
                    else (case map_of resp ''data'' of
                            None \<Rightarrow> Returns (Result_zero, Some (GoError ''data is not array''))
                          | Some dataSlice \<Rightarrow>
                              (let result = Result_zero\<lparr>Code := CodeSuccess, Msg := ''parse success''\<rparr>
                               in case dataSlice of
                                    Slice data \<Rightarrow> ParseResult_items L result [] data
                                  | _ \<Rightarrow> Returns (result, Some (GoError ''data is not array''))))
                | v \<Rightarrow> Panics (''interface conversion: interface {} is '' @ type_name v @ '', not float64'')))"


subsection \<open>A model of \<^verbatim>\<open>encoding/json\<close>, \<^verbatim>\<open>strconv\<close> and \<^verbatim>\<open>fmt\<close>\<close>

text \<open>
  To run \<^verbatim>\<open>ParseResult\<close> on response lines, \<open>go_json\<close> below answers the library
  calls. A JSON text is first read into its syntax tree, in which a number is kept as
  it is written and an object as its members in the order of the text;
  \<^verbatim>\<open>json.Unmarshal\<close> then stores the tree into the Go value: into an \<^verbatim>\<open>any\<close> with
  every number rounded to the nearest \<^verbatim>\<open>float64\<close>, into a \<^verbatim>\<open>Data\<close> field by field.
  \<^verbatim>\<open>json.Marshal\<close> writes a \<^verbatim>\<open>float64\<close> by the shortest decimal that reads back as
  the same \<^verbatim>\<open>float64\<close>. Syntax errors share one message.

  The model has no answer in two cases, in which it returns \<open>no_answer\<close>, which is not
  an answer of the library: a number that is a negative zero as a \<^verbatim>\<open>float64\<close> or a
  \<^verbatim>\<open>float32\<close> (the rational numbers have one zero), and an object decoded into
  \<^verbatim>\<open>Data\<close> that names a field twice (the library then decodes into the slices it
  has allocated before).
\<close>

datatype json = JNull | JBool bool | JNumber string | JString string | JArray "json list"
  | JObject "(string \<times> json) list"

datatype 'a parsed = SyntaxError | Parsed 'a string

definition no_answer :: go_error where
  "no_answer = GoError ''no answer of the model''"

definition syntax_error :: go_error where
  "syntax_error = GoError ''json: syntax error''"

subsubsection \<open>Numbers as written\<close>

definition json_space :: "char \<Rightarrow> bool" where
  "json_space c = (c = CHR '' '' \<or> c = CHR 0x09 \<or> c = CHR 0x0A \<or> c = CHR 0x0D)"

definition skip_space :: "string \<Rightarrow> string" where
  "skip_space s = dropWhile json_space s"

definition digit_of :: "char \<Rightarrow> nat option" where
  "digit_of c = (let n = of_char c :: nat in if 48 \<le> n \<and> n \<le> 57 then Some (n - 48) else None)"

definition hex_of :: "char \<Rightarrow> nat option" where
  "hex_of c =
     (let n = of_char c :: nat in
      if 48 \<le> n \<and> n \<le> 57 then Some (n - 48)
      else if 97 \<le> n \<and> n \<le> 102 then Some (n - 87)
      else if 65 \<le> n \<and> n \<le> 70 then Some (n - 55)
      else None)"

definition digits_span :: "string \<Rightarrow> string \<times> string" where
  "digits_span s = (takeWhile (\<lambda>c. digit_of c \<noteq> None) s, dropWhile (\<lambda>c. digit_of c \<noteq> None) s)"

definition int_of_digits :: "string \<Rightarrow> int" where
  "int_of_digits ds = foldl (\<lambda>n c. 10 * n + int (the (digit_of c))) 0 ds"

function digits :: "int \<Rightarrow> string" where
  "digits n =
     (if n < 10 then [digit_char (nat n)] else digits (n div 10) @ [digit_char (nat (n mod 10))])"
  by auto

termination digits
  by (relation "measure nat") auto

declare digits.simps [simp del]

definition pow10 :: "int \<Rightarrow> rat" where
  "pow10 e = (if 0 \<le> e then 10 ^ nat e else 1 / 10 ^ nat (- e))"

definition pow2 :: "int \<Rightarrow> rat" where
  "pow2 e = (if 0 \<le> e then 2 ^ nat e else 1 / 2 ^ nat (- e))"

text \<open>
  The exponent part and the fraction part of a number, each with the text that follows
  it; \<open>None\<close> when the part is begun and not completed.
\<close>

definition scan_exponent :: "string \<Rightarrow> (int \<times> string) option" where
  "scan_exponent s =
     (case s of
        [] \<Rightarrow> Some (0, [])
      | c # cs \<Rightarrow>
          if c = CHR ''e'' \<or> c = CHR ''E'' then
            (let (neg, r) = (case cs of
                               [] \<Rightarrow> (False, cs)
                             | d # ds \<Rightarrow> if d = CHR ''-'' then (True, ds)
                                         else if d = CHR ''+'' then (False, ds) else (False, cs));
                 (es, r') = digits_span r
             in if es = [] then None
                else Some (if neg then - int_of_digits es else int_of_digits es, r'))
          else Some (0, s))"

definition scan_fraction :: "string \<Rightarrow> (string \<times> string) option" where
  "scan_fraction s =
     (case s of
        [] \<Rightarrow> Some ([], [])
      | c # cs \<Rightarrow>
          if c = CHR ''.'' then
            (let (fs, r) = digits_span cs in if fs = [] then None else Some (fs, r))
          else Some ([], s))"

text \<open>
  A number at the head of a text: whether it has a minus sign, the digits of its
  integer part, the digits of its fraction, its exponent, and the text that follows.
\<close>

definition scan_number :: "string \<Rightarrow> ((bool \<times> string \<times> string \<times> int) \<times> string) option" where
  "scan_number s =
     (let (negative, s1) = (case s of [] \<Rightarrow> (False, s)
                             | c # cs \<Rightarrow> if c = CHR ''-'' then (True, cs) else (False, s));
          (is, s2) = digits_span s1
      in if is = [] \<or> (hd is = CHR ''0'' \<and> 1 < length is) then None
         else (case scan_fraction s2 of
                 None \<Rightarrow> None
               | Some (fs, s3) \<Rightarrow>
                   (case scan_exponent s3 of
                      None \<Rightarrow> None
                    | Some (e, s4) \<Rightarrow> Some ((negative, is, fs, e), s4))))"

definition parse_number :: "string \<Rightarrow> string parsed" where
  "parse_number s =
     (case scan_number s of
        None \<Rightarrow> SyntaxError
      | Some (parts, rest) \<Rightarrow> Parsed (take (length s - length rest) s) rest)"

text \<open>The rational number a literal denotes.\<close>

definition literal_value :: "string \<Rightarrow> rat" where
  "literal_value lit =
     (case scan_number lit of
        None \<Rightarrow> 0
      | Some ((negative, is, fs, e), rest) \<Rightarrow>
          (let m = of_int (int_of_digits (is @ fs)) * pow10 (e - int (length fs))
           in if negative then - m else m))"

text \<open>\<^verbatim>\<open>strconv.ParseInt\<close> takes an optional sign and digits.\<close>

definition integer_literal :: "string \<Rightarrow> int option" where
  "integer_literal lit =
     (case scan_number lit of
        None \<Rightarrow> None
      | Some ((negative, is, fs, e), rest) \<Rightarrow>
          if rest = [] \<and> lit = (if negative then ''-'' else []) @ is
          then Some (if negative then - int_of_digits is else int_of_digits is)
          else None)"

subsubsection \<open>Strings\<close>

text \<open>
  The length of the UTF-8 encoding at the head of a text, 0 when the head starts none:
  no overlong form, no surrogate, nothing above U+10FFFF.
\<close>

definition continuation :: "char \<Rightarrow> bool" where
  "continuation c = (128 \<le> (of_char c :: nat) \<and> (of_char c :: nat) < 192)"

definition between :: "nat \<Rightarrow> char \<Rightarrow> nat \<Rightarrow> bool" where
  "between l c h = (l \<le> (of_char c :: nat) \<and> (of_char c :: nat) \<le> h)"

definition utf8_width :: "string \<Rightarrow> nat" where
  "utf8_width s =
     (case s of
        [] \<Rightarrow> 0
      | c # cs \<Rightarrow>
          (let n = of_char c :: nat in
           if n < 128 then 1
           else if 194 \<le> n \<and> n \<le> 223 then
             (case cs of c1 # r \<Rightarrow> if continuation c1 then 2 else 0 | _ \<Rightarrow> 0)
           else if 224 \<le> n \<and> n \<le> 239 then
             (case cs of
                c1 # c2 # r \<Rightarrow>
                  if between (if n = 224 then 160 else 128) c1 (if n = 237 then 159 else 191) \<and>
                     continuation c2 then 3 else 0
              | _ \<Rightarrow> 0)
           else if 240 \<le> n \<and> n \<le> 244 then
             (case cs of
                c1 # c2 # c3 # r \<Rightarrow>
                  if between (if n = 240 then 144 else 128) c1 (if n = 244 then 143 else 191) \<and>
                     continuation c2 \<and> continuation c3 then 4 else 0
              | _ \<Rightarrow> 0)
           else 0))"

text \<open>The UTF-8 encoding of a code point; U+FFFD stands for what is no code point.\<close>

definition replacement :: string where
  "replacement = [CHR 0xEF, CHR 0xBF, CHR 0xBD]"

definition utf8_encode :: "nat \<Rightarrow> string" where
  "utf8_encode r =
     (if r < 128 then [char_of r]
      else if r < 2048 then [char_of (192 + r div 64), char_of (128 + r mod 64)]
      else if 55296 \<le> r \<and> r < 57344 then replacement
      else if r < 65536 then
        [char_of (224 + r div 4096), char_of (128 + r div 64 mod 64), char_of (128 + r mod 64)]
      else if r < 1114112 then
        [char_of (240 + r div 262144), char_of (128 + r div 4096 mod 64),
         char_of (128 + r div 64 mod 64), char_of (128 + r mod 64)]
      else replacement)"

definition hex4 :: "string \<Rightarrow> nat option" where
  "hex4 s =
     (case s of
        h1 # h2 # h3 # h4 # r \<Rightarrow>
          (case (hex_of h1, hex_of h2, hex_of h3, hex_of h4) of
             (Some a, Some b, Some c, Some d) \<Rightarrow> Some (((a * 16 + b) * 16 + c) * 16 + d)
           | _ \<Rightarrow> None)
      | _ \<Rightarrow> None)"

definition unescape :: "char \<Rightarrow> char option" where
  "unescape e =
     (if e = CHR 0x22 then Some (CHR 0x22)
      else if e = CHR 0x5C then Some (CHR 0x5C)
      else if e = CHR ''/'' then Some (CHR ''/'')
      else if e = CHR ''b'' then Some (CHR 0x08)
      else if e = CHR ''f'' then Some (CHR 0x0C)
      else if e = CHR ''n'' then Some (CHR 0x0A)
      else if e = CHR ''r'' then Some (CHR 0x0D)
      else if e = CHR ''t'' then Some (CHR 0x09)
      else None)"

text \<open>
  A string literal, after its opening quote: \<open>k\<close> bytes of the encoding begun are still
  to be copied, and \<open>acc\<close> holds the string read so far, reversed. A byte that starts
  no encoding becomes U+FFFD. An escape \<^verbatim>\<open>\u\<close> of a high surrogate takes the low
  surrogate from the escape that follows it; a surrogate without its partner becomes
  U+FFFD.
\<close>

fun parse_string :: "nat \<Rightarrow> string \<Rightarrow> string \<Rightarrow> string parsed" where
  "parse_string k acc [] = SyntaxError"
| "parse_string (Suc k) acc (c # cs) = parse_string k (c # acc) cs"
| "parse_string 0 acc (c # cs) =
     (if c = CHR 0x22 then Parsed (rev acc) cs
      else if c = CHR 0x5C then
        (case cs of
           [] \<Rightarrow> SyntaxError
         | e # cs' \<Rightarrow>
             if e = CHR ''u'' then
               (case cs' of
                  h1 # h2 # h3 # h4 # cs'' \<Rightarrow>
                    (case hex4 [h1, h2, h3, h4] of
                       None \<Rightarrow> SyntaxError
                     | Some r \<Rightarrow>
                         (case cs'' of
                            b # u # g1 # g2 # g3 # g4 # cs''' \<Rightarrow>
                              (case (if 55296 \<le> r \<and> r < 56320 \<and> b = CHR 0x5C \<and> u = CHR ''u''
                                     then hex4 [g1, g2, g3, g4] else None) of
                                 Some r' \<Rightarrow>
                                   if 56320 \<le> r' \<and> r' < 57344
                                   then parse_string 0
                                          (rev (utf8_encode (65536 + (r - 55296) * 1024 + (r' - 56320))) @ acc)
                                          cs'''
                                   else parse_string 0 (rev (utf8_encode r) @ acc) cs''
                               | None \<Rightarrow> parse_string 0 (rev (utf8_encode r) @ acc) cs'')
                          | _ \<Rightarrow> parse_string 0 (rev (utf8_encode r) @ acc) cs''))
                | _ \<Rightarrow> SyntaxError)
             else (case unescape e of
                     None \<Rightarrow> SyntaxError
                   | Some x \<Rightarrow> parse_string 0 (x # acc) cs'))
      else if (of_char c :: nat) < 32 then SyntaxError
      else if (of_char c :: nat) < 128 then parse_string 0 (c # acc) cs
      else if utf8_width (c # cs) = 0 then parse_string 0 (rev replacement @ acc) cs
      else parse_string (utf8_width (c # cs) - 1) (c # acc) cs)"

subsubsection \<open>The syntax tree of a text\<close>

text \<open>
  The recursive descent, by fuel: every call consumes a character, so the length of
  the text is fuel enough.
\<close>

fun parse_value :: "nat \<Rightarrow> string \<Rightarrow> json parsed"
  and parse_elements :: "nat \<Rightarrow> json list \<Rightarrow> string \<Rightarrow> json list parsed"
  and parse_members :: "nat \<Rightarrow> (string \<times> json) list \<Rightarrow> string \<Rightarrow> (string \<times> json) list parsed" where
  "parse_value 0 s = SyntaxError"
| "parse_value (Suc n) s =
     (case skip_space s of
        [] \<Rightarrow> SyntaxError
      | c # cs \<Rightarrow>
          if c = CHR ''{'' then
            (case skip_space cs of
               [] \<Rightarrow> SyntaxError
             | d # ds \<Rightarrow>
                 if d = CHR ''}'' then Parsed (JObject []) ds
                 else (case parse_members n [] cs of
                         Parsed m r \<Rightarrow> Parsed (JObject m) r
                       | SyntaxError \<Rightarrow> SyntaxError))
          else if c = CHR ''['' then
            (case skip_space cs of
               [] \<Rightarrow> SyntaxError
             | d # ds \<Rightarrow>
                 if d = CHR '']'' then Parsed (JArray []) ds
                 else (case parse_elements n [] cs of
                         Parsed vs r \<Rightarrow> Parsed (JArray vs) r
                       | SyntaxError \<Rightarrow> SyntaxError))
          else if c = CHR 0x22 then
            (case parse_string 0 [] cs of
               Parsed x r \<Rightarrow> Parsed (JString x) r
             | SyntaxError \<Rightarrow> SyntaxError)
          else if c = CHR ''-'' \<or> digit_of c \<noteq> None then
            (case parse_number (c # cs) of
               Parsed lit r \<Rightarrow> Parsed (JNumber lit) r
             | SyntaxError \<Rightarrow> SyntaxError)
          else if take 4 (c # cs) = ''true'' then Parsed (JBool True) (drop 4 (c # cs))
          else if take 5 (c # cs) = ''false'' then Parsed (JBool False) (drop 5 (c # cs))
          else if take 4 (c # cs) = ''null'' then Parsed JNull (drop 4 (c # cs))
          else SyntaxError)"
| "parse_elements 0 acc s = SyntaxError"
| "parse_elements (Suc n) acc s =
     (case parse_value n s of
        Parsed v r \<Rightarrow>
          (case skip_space r of
             [] \<Rightarrow> SyntaxError
           | c # cs \<Rightarrow>
               if c = CHR '','' then parse_elements n (acc @ [v]) cs
               else if c = CHR '']'' then Parsed (acc @ [v]) cs
               else SyntaxError)
      | SyntaxError \<Rightarrow> SyntaxError)"
| "parse_members 0 acc s = SyntaxError"
| "parse_members (Suc n) acc s =
     (case skip_space s of
        [] \<Rightarrow> SyntaxError
      | q # s1 \<Rightarrow>
          if q \<noteq> CHR 0x22 then SyntaxError
          else (case parse_string 0 [] s1 of
                  Parsed k s2 \<Rightarrow>
                    (case skip_space s2 of
                       [] \<Rightarrow> SyntaxError
                     | c # s3 \<Rightarrow>
                         if c \<noteq> CHR '':'' then SyntaxError
                         else (case parse_value n s3 of
                                 Parsed v s4 \<Rightarrow>
                                   (case skip_space s4 of
                                      [] \<Rightarrow> SyntaxError
                                    | d # s5 \<Rightarrow>
                                        if d = CHR '','' then parse_members n (acc @ [(k, v)]) s5
                                        else if d = CHR ''}'' then Parsed (acc @ [(k, v)]) s5
                                        else SyntaxError)
                               | SyntaxError \<Rightarrow> SyntaxError))
                | SyntaxError \<Rightarrow> SyntaxError))"

definition json_text :: "string \<Rightarrow> json parsed" where
  "json_text s =
     (case parse_value (Suc (length s)) s of
        Parsed v r \<Rightarrow> if skip_space r = [] then Parsed v [] else SyntaxError
      | SyntaxError \<Rightarrow> SyntaxError)"

subsubsection \<open>Floating point\<close>

text \<open>
  A binary floating-point format is given by its precision \<open>p\<close> and its least and
  greatest exponents: 53, -1022 and 1023 for \<^verbatim>\<open>float64\<close>, 24, -126 and 127 for
  \<^verbatim>\<open>float32\<close>. \<open>float_of\<close> rounds a number to the nearest number of the format, a tie
  to the one with even mantissa; a number that rounds beyond the greatest has none.
\<close>

function bit_length :: "int \<Rightarrow> nat" where
  "bit_length n = (if n \<le> 0 then 0 else Suc (bit_length (n div 2)))"
  by auto

termination bit_length
  by (relation "measure nat") auto

declare bit_length.simps [simp del]

definition floor_log2 :: "rat \<Rightarrow> int" where
  "floor_log2 a =
     (let (n, d) = quotient_of a;
          e = int (bit_length n) - int (bit_length d)
      in if a < pow2 e then e - 1 else e)"

definition round_half_even :: "rat \<Rightarrow> int" where
  "round_half_even x =
     (let f = \<lfloor>x\<rfloor>; d = x - of_int f
      in if d < 1 / 2 then f else if 1 / 2 < d then f + 1 else if even f then f else f + 1)"

definition unit_last_place :: "nat \<Rightarrow> int \<Rightarrow> rat \<Rightarrow> rat" where
  "unit_last_place p emin a = pow2 (max (floor_log2 a) emin - int p + 1)"

definition float_of :: "nat \<Rightarrow> int \<Rightarrow> int \<Rightarrow> rat \<Rightarrow> rat option" where
  "float_of p emin emax q =
     (if q = 0 then Some 0
      else (let a = \<bar>q\<bar>;
                ulp = unit_last_place p emin a;
                r = of_int (round_half_even (a / ulp)) * ulp
            in if r = 0 then Some 0
               else if emax < floor_log2 r then None
               else Some (if q < 0 then - r else r)))"

definition float64_of :: "rat \<Rightarrow> rat option" where
  "float64_of q = float_of 53 (- 1022) 1023 q"

definition float32_of :: "rat \<Rightarrow> rat option" where
  "float32_of q = float_of 24 (- 126) 127 q"

text \<open>
  The shortest decimal of a positive \<^verbatim>\<open>float64\<close> \<open>f\<close>, as \<^verbatim>\<open>strconv\<close> finds it:
  \<open>lo\<close> and \<open>hi\<close> are halfway to the neighbours of \<open>f\<close>, and belong to the numbers that
  round to \<open>f\<close> when the mantissa of \<open>f\<close> is even. From the first digit of \<open>hi\<close>
  downwards, \<open>f\<close> is cut at a digit, and the first cut is taken at which the number
  below or the number above rounds to \<open>f\<close>; of the two, the one nearer to \<open>f\<close>.
\<close>

fun scale_up :: "nat \<Rightarrow> rat \<Rightarrow> nat" where
  "scale_up 0 a = 0"
| "scale_up (Suc n) a = (if 1 \<le> a then 0 else Suc (scale_up n (10 * a)))"

definition decimal_exponent :: "rat \<Rightarrow> int" where
  "decimal_exponent a =
     (if 1 \<le> a then int (length (digits \<lfloor>a\<rfloor>)) - 1 else - int (scale_up 400 a))"

fun shortest_from :: "nat \<Rightarrow> rat \<Rightarrow> rat \<Rightarrow> rat \<Rightarrow> bool \<Rightarrow> rat \<Rightarrow> rat" where
  "shortest_from 0 lo f hi inclusive s = f"
| "shortest_from (Suc n) lo f hi inclusive s =
     (let down = of_int \<lfloor>f / s\<rfloor> * s;
          up = down + s;
          okdown = (lo < down \<or> (inclusive \<and> lo = down));
          okup = (up < hi \<or> (inclusive \<and> up = hi))
      in if okdown \<and> okup then
           (if f - down < s / 2 then down
            else if s / 2 < f - down then up
            else if even \<lfloor>f / s\<rfloor> then down else up)
         else if okdown then down
         else if okup then up
         else shortest_from n lo f hi inclusive (s / 10))"

definition shortest64 :: "rat \<Rightarrow> rat" where
  "shortest64 f =
     (let ulp = unit_last_place 53 (- 1022) f;
          m = \<lfloor>f / ulp\<rfloor>;
          hi = f + ulp / 2;
          lo = (if m = 2 ^ 52 \<and> - 1022 < floor_log2 f then f - ulp / 4 else f - ulp / 2)
      in shortest_from 800 lo f hi (even m) (pow10 (decimal_exponent hi)))"

subsubsection \<open>Printing a \<^verbatim>\<open>float64\<close>\<close>

text \<open>
  The formats of \<^verbatim>\<open>strconv\<close> for a positive decimal \<open>w\<close>: \<^verbatim>\<open>%f\<close> writes the integer
  part, and the fraction when there is one; \<^verbatim>\<open>%e\<close> writes the first digit, the others
  as a fraction, and the exponent with its sign and two digits at least.
\<close>

fun fraction_digits :: "nat \<Rightarrow> rat \<Rightarrow> string" where
  "fraction_digits 0 f = []"
| "fraction_digits (Suc n) f =
     (if f = 0 then []
      else (let t = 10 * f; d = \<lfloor>t\<rfloor> in digit_char (nat d) # fraction_digits n (t - of_int d)))"

definition format_f :: "rat \<Rightarrow> string" where
  "format_f w =
     (let i = \<lfloor>w\<rfloor>; f = w - of_int i
      in digits i @ (if f = 0 then [] else ''.'' @ fraction_digits 1100 f))"

definition format_e :: "rat \<Rightarrow> string" where
  "format_e w =
     (let x = decimal_exponent w;
          ds = format_f (w / pow10 x);
          xs = digits \<bar>x\<bar>
      in ds @ ''e'' @ (if x < 0 then ''-'' else ''+'') @ (if length xs < 2 then ''0'' @ xs else xs))"

text \<open>
  \<^verbatim>\<open>%v\<close> is \<^verbatim>\<open>%g\<close> with the shortest decimal: \<^verbatim>\<open>%e\<close> for an exponent below -4 or from
  6 on (one million prints as \<^verbatim>\<open>1e+06\<close>), \<^verbatim>\<open>%f\<close> otherwise.
\<close>

definition format_v :: "rat \<Rightarrow> string" where
  "format_v q =
     (if q = 0 then ''0''
      else (let w = shortest64 \<bar>q\<bar>; x = decimal_exponent w
            in (if q < 0 then ''-'' else []) @
               (if x < - 4 \<or> 6 \<le> x then format_e w else format_f w)))"

text \<open>
  \<^verbatim>\<open>json.Marshal\<close> writes \<^verbatim>\<open>%e\<close> below \<^verbatim>\<open>1e-6\<close> and from \<^verbatim>\<open>1e21\<close> on, with a negative
  exponent of one digit written as one digit, and \<^verbatim>\<open>%f\<close> otherwise.
\<close>

definition print_number :: "rat \<Rightarrow> string" where
  "print_number q =
     (if q = 0 then ''0''
      else (let a = \<bar>q\<bar>; w = shortest64 a; x = decimal_exponent w
            in (if q < 0 then ''-'' else []) @
               (if a < the (float64_of (1 / 10 ^ 6)) \<or> 10 ^ 21 \<le> a then
                  (if - 10 < x \<and> x < 0
                   then format_f (w / pow10 x) @ ''e-'' @ digits (- x)
                   else format_e w)
                else format_f w)))"

subsubsection \<open>Printing a string\<close>

definition hex_char :: "nat \<Rightarrow> char" where
  "hex_char d = (if d < 10 then char_of (48 + d) else char_of (87 + d))"

definition escape :: "char \<Rightarrow> string" where
  "escape c =
     (if c = CHR 0x22 \<or> c = CHR 0x5C then [CHR 0x5C, c]
      else if c = CHR 0x08 then [CHR 0x5C, CHR ''b'']
      else if c = CHR 0x0C then [CHR 0x5C, CHR ''f'']
      else if c = CHR 0x0A then [CHR 0x5C, CHR ''n'']
      else if c = CHR 0x0D then [CHR 0x5C, CHR ''r'']
      else if c = CHR 0x09 then [CHR 0x5C, CHR ''t'']
      else if (of_char c :: nat) < 32 \<or> c = CHR ''<'' \<or> c = CHR ''>'' \<or> c = CHR ''&''
      then [CHR 0x5C, CHR ''u'', CHR ''0'', CHR ''0'',
            hex_char ((of_char c :: nat) div 16), hex_char ((of_char c :: nat) mod 16)]
      else [c])"

text \<open>
  The body of a string literal: \<open>k\<close> bytes of the encoding begun are still to be copied
  (\<open>copy\<close>) or passed over. A byte that starts no encoding is written as the escape
  of U+FFFD; U+2028 and U+2029 are written as escapes.
\<close>

fun print_chars :: "nat \<Rightarrow> bool \<Rightarrow> string \<Rightarrow> string" where
  "print_chars k copy [] = []"
| "print_chars (Suc k) copy (c # cs) = (if copy then [c] else []) @ print_chars k copy cs"
| "print_chars 0 copy (c # cs) =
     (if (of_char c :: nat) < 128 then escape c @ print_chars 0 True cs
      else if utf8_width (c # cs) = 0 then
        [CHR 0x5C, CHR ''u'', CHR ''f'', CHR ''f'', CHR ''f'', CHR ''d''] @ print_chars 0 True cs
      else if take 3 (c # cs) = [CHR 0xE2, CHR 0x80, CHR 0xA8] then
        [CHR 0x5C, CHR ''u'', CHR ''2'', CHR ''0'', CHR ''2'', CHR ''8''] @ print_chars 2 False cs
      else if take 3 (c # cs) = [CHR 0xE2, CHR 0x80, CHR 0xA9] then
        [CHR 0x5C, CHR ''u'', CHR ''2'', CHR ''0'', CHR ''2'', CHR ''9''] @ print_chars 2 False cs
      else c # print_chars (utf8_width (c # cs) - 1) True cs)"

definition print_string :: "string \<Rightarrow> string" where
  "print_string s = [CHR 0x22] @ print_chars 0 True s @ [CHR 0x22]"

fun print_json :: "any \<Rightarrow> string" where
  "print_json Nil = ''null''"
| "print_json (Bool b) = (if b then ''true'' else ''false'')"
| "print_json (Float64 q) = print_number q"
| "print_json (String s) = print_string s"
| "print_json (Slice vs) = ''['' @ Join_with '','' (map print_json vs) @ '']''"
| "print_json (Map kvs) =
     ''{'' @ Join_with '','' (map (\<lambda>(k, v). print_string k @ '':'' @ print_json v) kvs) @ ''}''"

subsubsection \<open>Storing a text into an \<^verbatim>\<open>any\<close>\<close>

text \<open>
  A Go map is listed in increasing order of its keys, byte by byte, the order in which
  \<^verbatim>\<open>encoding/json\<close> and \<^verbatim>\<open>fmt\<close> visit it; storing under a key that is present
  replaces the value.
\<close>

fun string_less :: "string \<Rightarrow> string \<Rightarrow> bool" where
  "string_less [] [] = False"
| "string_less [] (y # ys) = True"
| "string_less (x # xs) [] = False"
| "string_less (x # xs) (y # ys) =
     ((of_char x :: nat) < of_char y \<or> (x = y \<and> string_less xs ys))"

fun map_store :: "string \<Rightarrow> any \<Rightarrow> gomap \<Rightarrow> gomap" where
  "map_store k v [] = [(k, v)]"
| "map_store k v ((k', v') # m) =
     (if k = k' then (k, v) # m
      else if string_less k k' then (k, v) # (k', v') # m
      else (k', v') # map_store k v m)"

definition json_kind :: "json \<Rightarrow> string" where
  "json_kind v =
     (case v of JNull \<Rightarrow> ''null'' | JBool b \<Rightarrow> ''bool'' | JNumber lit \<Rightarrow> ''number''
      | JString s \<Rightarrow> ''string'' | JArray vs \<Rightarrow> ''array'' | JObject ms \<Rightarrow> ''object'')"

definition value_error :: "string \<Rightarrow> string \<Rightarrow> go_error" where
  "value_error what ty =
     GoError (''json: cannot unmarshal '' @ what @ '' into Go value of type '' @ ty)"

definition float64_of_literal :: "string \<Rightarrow> go_error + rat" where
  "float64_of_literal lit =
     (case float64_of (literal_value lit) of
        None \<Rightarrow> Inl (value_error (''number '' @ lit) ''float64'')
      | Some r \<Rightarrow> if r = 0 \<and> take 1 lit = ''-'' then Inl no_answer else Inr r)"

text \<open>The first error in the order of the text is the one \<^verbatim>\<open>json.Unmarshal\<close> returns.\<close>

fun any_of_json :: "json \<Rightarrow> go_error + any"
  and anys_of_json :: "json list \<Rightarrow> go_error + any list"
  and map_of_json :: "gomap \<Rightarrow> (string \<times> json) list \<Rightarrow> go_error + gomap" where
  "any_of_json JNull = Inr Nil"
| "any_of_json (JBool b) = Inr (Bool b)"
| "any_of_json (JNumber lit) =
     (case float64_of_literal lit of Inl e \<Rightarrow> Inl e | Inr q \<Rightarrow> Inr (Float64 q))"
| "any_of_json (JString s) = Inr (String s)"
| "any_of_json (JArray vs) =
     (case anys_of_json vs of Inl e \<Rightarrow> Inl e | Inr xs \<Rightarrow> Inr (Slice xs))"
| "any_of_json (JObject ms) =
     (case map_of_json [] ms of Inl e \<Rightarrow> Inl e | Inr m \<Rightarrow> Inr (Map m))"
| "anys_of_json [] = Inr []"
| "anys_of_json (v # vs) =
     (case any_of_json v of
        Inl e \<Rightarrow> Inl e
      | Inr x \<Rightarrow> (case anys_of_json vs of Inl e \<Rightarrow> Inl e | Inr xs \<Rightarrow> Inr (x # xs)))"
| "map_of_json m [] = Inr m"
| "map_of_json m ((k, v) # ms) =
     (case any_of_json v of
        Inl e \<Rightarrow> Inl e
      | Inr x \<Rightarrow> map_of_json (map_store k x m) ms)"

definition Unmarshal_map :: "string \<Rightarrow> go_error + gomap" where
  "Unmarshal_map str =
     (case json_text str of
        SyntaxError \<Rightarrow> Inl syntax_error
      | Parsed v r \<Rightarrow>
          (case v of
             JNull \<Rightarrow> Inr []
           | JObject ms \<Rightarrow> map_of_json [] ms
           | _ \<Rightarrow> Inl (value_error (json_kind v) ''map[string]interface {}'')))"

subsubsection \<open>Storing a text into a \<^verbatim>\<open>Data\<close>\<close>

text \<open>
  A type error names the field by its path from the struct, the index of an element
  included.
\<close>

definition field_error :: "string \<Rightarrow> string \<Rightarrow> string \<Rightarrow> go_error" where
  "field_error what path ty =
     GoError (''json: cannot unmarshal '' @ what @ '' into Go struct field Data.'' @ path @
              '' of type '' @ ty)"

fun collect :: "(nat \<Rightarrow> 'a \<Rightarrow> go_error + 'b) \<Rightarrow> nat \<Rightarrow> 'a list \<Rightarrow> go_error + 'b list" where
  "collect f i [] = Inr []"
| "collect f i (x # xs) =
     (case f i x of
        Inl e \<Rightarrow> Inl e
      | Inr y \<Rightarrow> (case collect f (Suc i) xs of Inl e \<Rightarrow> Inl e | Inr ys \<Rightarrow> Inr (y # ys)))"

definition decode_int :: "string \<Rightarrow> json \<Rightarrow> go_error + int" where
  "decode_int path v =
     (case v of
        JNull \<Rightarrow> Inr 0
      | JNumber lit \<Rightarrow>
          (case integer_literal lit of
             Some n \<Rightarrow> if - (2 ^ 63) \<le> n \<and> n < 2 ^ 63 then Inr n
                       else Inl (field_error (''number '' @ lit) path ''int'')
           | None \<Rightarrow> Inl (field_error (''number '' @ lit) path ''int''))
      | _ \<Rightarrow> Inl (field_error (json_kind v) path ''int''))"

definition decode_row :: "string \<Rightarrow> json \<Rightarrow> go_error + int list" where
  "decode_row path v =
     (case v of
        JNull \<Rightarrow> Inr []
      | JArray cells \<Rightarrow> collect (\<lambda>j. decode_int (path @ ''.'' @ decimal j)) 0 cells
      | _ \<Rightarrow> Inl (field_error (json_kind v) path ''[]int''))"

definition decode_box :: "json \<Rightarrow> go_error + int list list" where
  "decode_box v =
     (case v of
        JNull \<Rightarrow> Inr []
      | JArray rows \<Rightarrow> collect (\<lambda>i. decode_row (''box.'' @ decimal i)) 0 rows
      | _ \<Rightarrow> Inl (field_error (json_kind v) ''box'' ''[][]int''))"

definition decode_score :: "json \<Rightarrow> go_error + rat" where
  "decode_score v =
     (case v of
        JNull \<Rightarrow> Inr 0
      | JNumber lit \<Rightarrow>
          (case float32_of (literal_value lit) of
             Some r \<Rightarrow> if r = 0 \<and> take 1 lit = ''-'' then Inl no_answer else Inr r
           | None \<Rightarrow> Inl (field_error (''number '' @ lit) ''score'' ''float32''))
      | _ \<Rightarrow> Inl (field_error (json_kind v) ''score'' ''float32''))"

definition decode_text :: "json \<Rightarrow> go_error + string" where
  "decode_text v =
     (case v of
        JNull \<Rightarrow> Inr []
      | JString s \<Rightarrow> Inr s
      | _ \<Rightarrow> Inl (field_error (json_kind v) ''text'' ''string''))"

text \<open>
  A key names a field when it equals the field's tag without regard to case, U+017F
  counting as \<^verbatim>\<open>s\<close> and U+212A as \<^verbatim>\<open>k\<close>.
\<close>

fun fold_name :: "string \<Rightarrow> string" where
  "fold_name [] = []"
| "fold_name (c # cs) =
     (if take 2 (c # cs) = [CHR 0xC5, CHR 0xBF] then CHR ''s'' # fold_name (drop 1 cs)
      else if take 3 (c # cs) = [CHR 0xE2, CHR 0x84, CHR 0xAA] then CHR ''k'' # fold_name (drop 2 cs)
      else (let n = of_char c :: nat in if 65 \<le> n \<and> n \<le> 90 then char_of (n + 32) else c) #
           fold_name cs)"

definition Data_zero :: Data where
  "Data_zero = \<lparr>Rect = [], Score = 0, Text = []\<rparr>"

text \<open>
  One member of the object, on the struct built so far, the first error saved so far and
  the fields met so far. A key that names no field is skipped. A type error is saved
  and decoding goes on; \<^verbatim>\<open>null\<close> leaves a number and a string as they are.
\<close>

fun decode_member ::
  "Data \<times> go_error option \<times> string list \<Rightarrow> string \<times> json \<Rightarrow> Data \<times> go_error option \<times> string list" where
  "decode_member (d, saved, seen) (k, v) =
     (let f = fold_name k;
          save = (\<lambda>e. case saved of None \<Rightarrow> Some e | Some e' \<Rightarrow> Some e')
      in if f = ''box'' then
           (case decode_box v of
              Inl e \<Rightarrow> (d, save e, f # seen)
            | Inr b \<Rightarrow> (d\<lparr>Rect := b\<rparr>, saved, f # seen))
         else if f = ''score'' then
           (case decode_score v of
              Inl e \<Rightarrow> (d, save e, f # seen)
            | Inr x \<Rightarrow> (d\<lparr>Score := x\<rparr>, saved, f # seen))
         else if f = ''text'' then
           (case decode_text v of
              Inl e \<Rightarrow> (d, save e, f # seen)
            | Inr t \<Rightarrow> (d\<lparr>Text := t\<rparr>, saved, f # seen))
         else (d, saved, seen))"

definition Data_of_json :: "json \<Rightarrow> go_error + Data" where
  "Data_of_json v =
     (case v of
        JNull \<Rightarrow> Inr Data_zero
      | JObject ms \<Rightarrow>
          (case foldl decode_member (Data_zero, None, []) ms of
             (d, saved, seen) \<Rightarrow>
               if \<not> distinct seen then Inl no_answer
               else (case saved of None \<Rightarrow> Inr d | Some e \<Rightarrow> Inl e))
      | _ \<Rightarrow> Inl (value_error (json_kind v) ''paddleocr.Data''))"

definition Unmarshal_Data :: "string \<Rightarrow> go_error + Data" where
  "Unmarshal_Data str =
     (case json_text str of
        SyntaxError \<Rightarrow> Inl syntax_error
      | Parsed v r \<Rightarrow> Data_of_json v)"

definition go_json :: golib where
  "go_json =
     \<lparr>json_Unmarshal_map = Unmarshal_map,
      json_Marshal = (\<lambda>v. Inr (print_json v)),
      json_String = print_string,
      json_Unmarshal_Data = Unmarshal_Data,
      FormatFloat = format_v,
      int_out_of_range = (\<lambda>f. - (2 ^ 63))\<rparr>"

subsubsection \<open>Writing an \<^verbatim>\<open>any\<close> and reading it into a \<^verbatim>\<open>Data\<close>\<close>




subsection \<open>Items and the example lines\<close>









subsection \<open>The worker's output stream\<close>

text \<open>
  The standard output of the worker reaches the package through a pipe. What the pipe
  delivers is a list of events: \<open>Bytes c\<close> is a chunk that is in the pipe when it is
  read, the empty chunk standing for the end of the stream (the worker has closed its
  end, and \<^verbatim>\<open>Read\<close> returns 0 and \<^verbatim>\<open>io.EOF\<close>); \<open>ReadErr err\<close> is a read that fails
  with \<open>err\<close>. At the end of the list the pipe is open and empty, and a read blocks.

  \<open>Read room es\<close> is one call \<^verbatim>\<open>rc.Read(b)\<close> with \<^verbatim>\<open>len(b)\<close> equal to \<open>room\<close>: it blocks,
  fails, or returns the bytes read together with what the pipe still holds. A read
  into an empty slice returns 0 bytes and no error. A chunk longer than \<open>room\<close> is
  read up to \<open>room\<close> bytes, and the rest stays in the pipe: one chunk may take
  several reads, and a read never returns more than one chunk (a short read).
\<close>

datatype read_event = Bytes string | ReadErr go_error

datatype read_result = Blocked | ReadFails go_error | ReadOk string "read_event list"

definition io_EOF :: go_error where
  "io_EOF = GoError ''EOF''"

definition Read :: "nat \<Rightarrow> read_event list \<Rightarrow> read_result" where
  "Read room es =
     (if room = 0 then ReadOk [] es
      else (case es of
              [] \<Rightarrow> Blocked
            | ReadErr err # es' \<Rightarrow> ReadFails err
            | Bytes c # es' \<Rightarrow>
                if c = [] then ReadFails io_EOF
                else ReadOk (take room c) (if room < length c then Bytes (drop room c) # es' else es')))"

text \<open>
  The size of a stream bounds the number of reads it can answer; it is the measure by
  which the loops below terminate.
\<close>

fun event_size :: "read_event \<Rightarrow> nat" where
  "event_size (Bytes c) = Suc (length c)"
| "event_size (ReadErr err) = 1"

definition stream_size :: "read_event list \<Rightarrow> nat" where
  "stream_size es = sum_list (map event_size es)"

lemma Read_ReadOk:
  assumes "Read room es = ReadOk bs es'"
  shows "(room = 0 \<and> bs = [] \<and> es' = es) \<or>
         (0 < room \<and> bs \<noteq> [] \<and> length bs \<le> room \<and> stream_size es' < stream_size es)"
proof (cases "room = 0")
  case True
  then show ?thesis using assms by (simp add: Read_def)
next
  case False
  then obtain c rest where es: "es = Bytes c # rest" "c \<noteq> []"
    using assms by (auto simp: Read_def split: list.splits read_event.splits if_splits)
  then have bs: "bs = take room c"
    and es': "es' = (if room < length c then Bytes (drop room c) # rest else rest)"
    using assms False by (auto simp: Read_def split: if_splits)
  have "stream_size es' < stream_size es"
    using es es' False by (auto simp: stream_size_def)
  then show ?thesis using bs es False by (cases c) auto
qed

text \<open>
  The loop of \<^verbatim>\<open>Ppocr.ocr\<close> after the two writes, on the buffer \<open>content\<close> and the
  index \<open>start\<close>. \<open>store\<close> is the effect of a read on the slice \<^verbatim>\<open>content[start:]\<close>.
  Slicing beyond the length and indexing at -1 panic. The result is the pair the
  function returns, with what is left in the pipe.
\<close>

definition newline :: char where
  "newline = CHR 0x0A"

definition store :: "string \<Rightarrow> nat \<Rightarrow> string \<Rightarrow> string" where
  "store buf start bs = take start buf @ bs @ drop (start + length bs) buf"

function ocr_receive ::
  "string \<Rightarrow> nat \<Rightarrow> read_event list \<Rightarrow> ((string \<times> go_error option) \<times> read_event list) outcome" where
  "ocr_receive content start es =
     (if length content < start then Panics ''slice bounds out of range''
      else (case Read (length content - start) es of
              Blocked \<Rightarrow> Hangs
            | ReadFails err \<Rightarrow> Returns (([], Some err), es)
            | ReadOk bs es' \<Rightarrow>
                (let content1 = store content start bs;
                     start1 = start + length bs;
                     content2 = (if length content1 \<le> start1
                                 then content1 @ replicate (1024 * 10) (CHR 0x00) else content1)
                 in if start1 = 0 then Panics ''index out of range [-1]''
                    else if content2 ! (start1 - 1) = newline
                    then Returns ((take start1 content2, None), es')
                    else ocr_receive content2 start1 es')))"
  by pat_completeness auto
termination
proof (relation "measures [\<lambda>(content, start, es). stream_size es,
                           \<lambda>(content, start, es). if length content \<le> start then 1 else 0]",
       goal_cases)
  case 1
  then show ?case by simp
next
  case (2 content start es bs es' content1 start1 content2)
  from Read_ReadOk [OF 2(2)] show ?case
  proof
    assume "length content - start = 0 \<and> bs = [] \<and> es' = es"
    then show ?thesis using 2 by (simp add: store_def)
  next
    assume "0 < length content - start \<and> bs \<noteq> [] \<and> length bs \<le> length content - start \<and>
      stream_size es' < stream_size es"
    then show ?thesis by simp
  qed
qed

declare ocr_receive.simps [simp del]

text \<open>
  The same loop in the words of the specification, without the buffer: \<open>acc\<close> holds
  the bytes read so far; a read takes at most the room that is free in a buffer growing
  by 10240 bytes; the first error ends the exchange with a failure; the exchange ends
  with the accumulated bytes as soon as their last byte is a newline.
\<close>

definition room_for :: "nat \<Rightarrow> nat" where
  "room_for n = 1024 * 10 - n mod (1024 * 10)"

function receive_spec ::
  "string \<Rightarrow> read_event list \<Rightarrow> ((string \<times> go_error option) \<times> read_event list) outcome" where
  "receive_spec acc es =
     (case Read (room_for (length acc)) es of
        Blocked \<Rightarrow> Hangs
      | ReadFails err \<Rightarrow> Returns (([], Some err), es)
      | ReadOk bs es' \<Rightarrow>
          if last (acc @ bs) = newline then Returns ((acc @ bs, None), es')
          else receive_spec (acc @ bs) es')"
  by pat_completeness auto
termination
proof (relation "measure (\<lambda>(acc, es). stream_size es)", goal_cases)
  case 1
  then show ?case by simp
next
  case (2 acc es bs es')
  have "0 < room_for (length acc)" by (simp add: room_for_def)
  then show ?case using Read_ReadOk [OF 2(1)] by simp
qed

declare receive_spec.simps [simp del]

text \<open>
  The bytes a stream delivers before it ends, fails or runs dry.
\<close>

fun pending :: "read_event list \<Rightarrow> string" where
  "pending [] = []"
| "pending (ReadErr err # es) = []"
| "pending (Bytes c # es) = (if c = [] then [] else c @ pending es)"

text \<open>
  The loop of \<^verbatim>\<open>initPpocr\<close> that waits for the marker, on the buffer \<open>buf\<close> of 4096
  bytes and the index \<open>start\<close>. It ends in one of three ways: the marker is in the
  bytes read so far (\<open>Found\<close>), the buffer is full (\<open>TooLong\<close>), or a read fails
  (\<open>ReadFailed\<close>, with the error and the bytes read before it).
  \<^verbatim>\<open>bytes.Contains(b, subslice)\<close> is true when \<open>subslice\<close> is a run of consecutive bytes
  of \<open>b\<close>.
\<close>

datatype handshake = Found | TooLong | ReadFailed go_error string

definition marker :: string where
  "marker = ''OCR init completed.''"

definition Contains :: "string \<Rightarrow> string \<Rightarrow> bool" where
  "Contains b subslice = sublist subslice b"

function init_read ::
  "string \<Rightarrow> nat \<Rightarrow> read_event list \<Rightarrow> (handshake \<times> read_event list) outcome" where
  "init_read buf start es =
     (if length buf < start then Panics ''slice bounds out of range''
      else (case Read (length buf - start) es of
              Blocked \<Rightarrow> Hangs
            | ReadFails err \<Rightarrow> Returns (ReadFailed err (take start buf), es)
            | ReadOk bs es' \<Rightarrow>
                (let buf1 = store buf start bs; start1 = start + length bs
                 in if length buf1 \<le> start1 then Returns (TooLong, es')
                    else if Contains (take start1 buf1) marker then Returns (Found, es')
                    else init_read buf1 start1 es')))"
  by pat_completeness auto
termination
proof (relation "measure (\<lambda>(buf, start, es). stream_size es)", goal_cases)
  case 1
  then show ?case by simp
next
  case (2 buf start es bs es' buf1 start1)
  from Read_ReadOk [OF 2(2)] show ?case
  proof
    assume "length buf - start = 0 \<and> bs = [] \<and> es' = es"
    then show ?thesis using 2 by (simp add: store_def)
  next
    assume "0 < length buf - start \<and> bs \<noteq> [] \<and> length bs \<le> length buf - start \<and>
      stream_size es' < stream_size es"
    then show ?thesis by simp
  qed
qed

declare init_read.simps [simp del]

text \<open>
  The two loops as the functions enter them: \<^verbatim>\<open>make([]byte, 4096)\<close> and
  \<^verbatim>\<open>make([]byte, 1024*10)\<close>, both with \<open>start\<close> 0.
\<close>

definition initPpocr_loop :: "read_event list \<Rightarrow> (handshake \<times> read_event list) outcome" where
  "initPpocr_loop rc = init_read (replicate 4096 (CHR 0x00)) 0 rc"

definition ocr_loop ::
  "read_event list \<Rightarrow> ((string \<times> go_error option) \<times> read_event list) outcome" where
  "ocr_loop rc = ocr_receive (replicate (1024 * 10) (CHR 0x00)) 0 rc"

text \<open>
  The handshake without the buffer: \<open>acc\<close> holds the bytes read so far, fewer than
  4096.
\<close>

fun handshake_spec :: "string \<Rightarrow> read_event list \<Rightarrow> (handshake \<times> read_event list) outcome" where
  "handshake_spec acc [] = Hangs"
| "handshake_spec acc (ReadErr err # es) = Returns (ReadFailed err acc, ReadErr err # es)"
| "handshake_spec acc (Bytes c # es) =
     (if c = [] then Returns (ReadFailed io_EOF acc, Bytes c # es)
      else if 4096 \<le> length acc + length c
      then Returns (TooLong, if 4096 - length acc < length c
                             then Bytes (drop (4096 - length acc) c) # es else es)
      else if Contains (acc @ c) marker then Returns (Found, es)
      else handshake_spec (acc @ c) es)"

text \<open>
  The handshake in terms of the chunks the worker emits. The marker is read in time
  when, for some \<open>k\<close>, the first \<open>k\<close> events are non-empty chunks of fewer than 4096
  bytes altogether, and these bytes contain the marker. The stream stalls when all its
  events are non-empty chunks of fewer than 4096 bytes altogether, and the marker is
  not among them: the handshake then waits for ever.
\<close>

fun is_data :: "read_event \<Rightarrow> bool" where
  "is_data (Bytes c) = (c \<noteq> [])"
| "is_data (ReadErr err) = False"

fun chunk :: "read_event \<Rightarrow> string" where
  "chunk (Bytes c) = c"
| "chunk (ReadErr err) = []"

definition delivered :: "nat \<Rightarrow> read_event list \<Rightarrow> string" where
  "delivered k es = concat (map chunk (take k es))"

definition marker_in_time :: "read_event list \<Rightarrow> bool" where
  "marker_in_time es =
     (\<exists>k\<in>set [0..<Suc (length es)].
        list_all is_data (take k es) \<and> length (delivered k es) < 4096 \<and>
        Contains (delivered k es) marker)"

definition stalls :: "read_event list \<Rightarrow> bool" where
  "stalls es =
     (list_all is_data es \<and> length (delivered (length es) es) < 4096 \<and>
      (\<forall>k\<in>set [0..<Suc (length es)]. \<not> Contains (delivered k es) marker))"

subsection \<open>The file system, the pipes and the worker process\<close>

text \<open>
  \<^verbatim>\<open>fileIsExist\<close> of \<^verbatim>\<open>utils.go\<close>. \<^verbatim>\<open>os.Stat\<close> returns an error, or whether the path is a
  directory. \<^verbatim>\<open>os.IsExist\<close> holds of the errors that report an existing file, \<open>EEXIST\<close>
  and \<open>ENOTEMPTY\<close>.
\<close>

datatype errno = ENOENT | EACCES | ENOTDIR | EEXIST | ENOTEMPTY | EIO

definition os_IsExist :: "errno \<Rightarrow> bool" where
  "os_IsExist err = (err = EEXIST \<or> err = ENOTEMPTY)"

text \<open>
  The pipe to the standard input of the worker: the bytes written so far, the results
  of the writes to come (\<open>None\<close> for a write that succeeds, and every write succeeds
  once the list is used up), and whether the package has closed its end. A write to a
  closed file fails with \<^verbatim>\<open>os.ErrClosed\<close>.
\<close>

record wpipe =
  bytes_written :: string
  faults :: "go_error option list"
  closed :: bool

definition ErrClosed :: go_error where
  "ErrClosed = GoError ''file already closed''"

definition Write_pipe :: "wpipe \<Rightarrow> string \<Rightarrow> go_error option \<times> wpipe" where
  "Write_pipe f b =
     (if closed f then (Some ErrClosed, f)
      else (case faults f of
              [] \<Rightarrow> (None, f\<lparr>bytes_written := bytes_written f @ b\<rparr>)
            | None # fs \<Rightarrow> (None, f\<lparr>bytes_written := bytes_written f @ b, faults := fs\<rparr>)
            | Some err # fs \<Rightarrow> (Some err, f\<lparr>faults := fs\<rparr>)))"

text \<open>
  The worker process and the goroutine that \<^verbatim>\<open>initPpocr\<close> starts after \<^verbatim>\<open>cmd.Start\<close>,
  which calls \<^verbatim>\<open>cmd.Wait\<close>, stores its error in \<^verbatim>\<open>p.internalErr\<close> and sends on the
  unbuffered channel \<^verbatim>\<open>runGoroutineExitedChan\<close>:
  \<^item> \<open>NotStarted\<close>: \<^verbatim>\<open>cmd.Start\<close> has not succeeded; there is no such goroutine;
  \<^item> \<open>Running\<close>: the goroutine is in \<^verbatim>\<open>cmd.Wait\<close>;
  \<^item> \<open>Exited\<close>: \<^verbatim>\<open>cmd.Wait\<close> has returned and the goroutine waits to send;
  \<^item> \<open>Reaped\<close>: the goroutine has sent and is gone.
  \<open>wait_result\<close> is what \<^verbatim>\<open>cmd.Wait\<close> returns when the process ends.

  A launch is what \<^verbatim>\<open>StdinPipe\<close>, \<^verbatim>\<open>StdoutPipe\<close> and \<^verbatim>\<open>Start\<close> do: one of them fails, or
  the worker starts and behaves by a script: the events of its output stream, the
  results of the writes to its input, the error of \<^verbatim>\<open>cmd.Wait\<close>, whether it has exited,
  with the result of \<^verbatim>\<open>cmd.Wait\<close> stored, by the time the handshake looks at
  \<^verbatim>\<open>p.internalErr\<close>, and what it has written to its standard error by then.

  The world holds the file system, what the \<open>n\<close>-th launch of a path with an argument
  line does, and the launches made so far.
\<close>

datatype pstate = NotStarted | Running | Exited | Reaped

record proc =
  pstate :: pstate
  wait_result :: "go_error option"

record script =
  out_events :: "read_event list"
  in_faults :: "go_error option list"
  wait_err :: "go_error option"
  ended :: bool
  err_text :: string

datatype launch = StdinPipeFails go_error | StdoutPipeFails go_error | StartFails go_error
  | Starts script

record world =
  os_Stat :: "string \<Rightarrow> errno + bool"
  exec :: "string \<Rightarrow> string \<Rightarrow> nat \<Rightarrow> launch"
  launched :: "(string \<times> string) list"

definition fileIsExist :: "world \<Rightarrow> string \<Rightarrow> bool" where
  "fileIsExist w path =
     (case os_Stat w path of
        Inl err \<Rightarrow> os_IsExist err
      | Inr isDir \<Rightarrow> if isDir then False else True)"

text \<open>
  The struct \<^verbatim>\<open>Ppocr\<close>. The mutex is \<open>ppLock\<close>, which is \<open>True\<close> when a call holds it
  that never returns; a call of a method is otherwise run to its end before the next
  one. \<^verbatim>\<open>restartExitChan\<close> is told by whether it is closed, \<open>cmdStdout\<close> is what the
  pipe from the worker still delivers, \<open>restartTimer\<close> whether the goroutine
  \<^verbatim>\<open>restartTimer\<close> runs.
\<close>

record Ppocr =
  exePath :: string
  args :: OcrArgs
  ppLock :: bool
  restartExitChan_closed :: bool
  internalErr :: "go_error option"
  cmdStdout :: "read_event list option"
  cmdStdin :: "wpipe option"
  cmd :: "proc option"
  restartTimer :: bool

text \<open>
  What \<^verbatim>\<open>initPpocr\<close> returns after its loop: with the marker found,
  \<^verbatim>\<open>p.internalErr\<close>; with the buffer full, \<^verbatim>\<open>output too long\<close>; after a failing read, one
  of two messages, by whether \<^verbatim>\<open>p.internalErr\<close> is set.
\<close>

definition init_error :: "go_error option \<Rightarrow> handshake \<Rightarrow> string \<Rightarrow> go_error option" where
  "init_error ierr h stderr_text =
     (case h of
        Found \<Rightarrow> ierr
      | TooLong \<Rightarrow> Some (GoError ''OCR init failed: output too long'')
      | ReadFailed err out \<Rightarrow>
          (case ierr of
             Some run \<Rightarrow>
               Some (GoError (''OCR init failed: '' @ Error err @ '',run error: '' @ Error run))
           | None \<Rightarrow>
               Some (GoError (''OCR init failed, error: '' @ Error err @ '', output: '' @ out @
                              '' '' @ stderr_text))))"

text \<open>
  \<^verbatim>\<open>initPpocr\<close>. \<^verbatim>\<open>p.cmd\<close> is set first; the pipes are stored once both exist. When
  \<^verbatim>\<open>cmd.Start\<close> fails it has closed the pipes. The goroutine sets \<^verbatim>\<open>p.internalErr\<close> to
  nil and then to the error of \<^verbatim>\<open>cmd.Wait\<close>: \<open>ierr\<close> is what the handshake finds there.
\<close>

definition initPpocr ::
  "world \<Rightarrow> Ppocr \<Rightarrow> string \<Rightarrow> OcrArgs \<Rightarrow> go_error option outcome \<times> Ppocr \<times> world" where
  "initPpocr w p exePath' args' =
     (let line = CmdString args';
          w1 = w\<lparr>launched := launched w @ [(exePath', line)]\<rparr>;
          p1 = p\<lparr>cmd := Some \<lparr>pstate = NotStarted, wait_result = None\<rparr>\<rparr>
      in case exec w exePath' line (length (launched w)) of
           StdinPipeFails err \<Rightarrow> (Returns (Some err), p1, w1)
         | StdoutPipeFails err \<Rightarrow> (Returns (Some err), p1, w1)
         | StartFails err \<Rightarrow>
             (Returns (Some (GoError (''OCR process start failed: '' @ Error err))),
              p1\<lparr>cmdStdin := Some \<lparr>bytes_written = [], faults = [], closed = True\<rparr>,
                 cmdStdout := Some [ReadErr ErrClosed]\<rparr>, w1)
         | Starts sc \<Rightarrow>
             (let ierr = (if ended sc then wait_err sc else None);
                  p2 = p1\<lparr>cmdStdin := Some \<lparr>bytes_written = [], faults = in_faults sc, closed = False\<rparr>,
                          cmdStdout := Some (out_events sc),
                          cmd := Some \<lparr>pstate = (if ended sc then Exited else Running),
                                       wait_result = wait_err sc\<rparr>,
                          internalErr := ierr\<rparr>
              in case initPpocr_loop (out_events sc) of
                   Panics m \<Rightarrow> (Panics m, p2, w1)
                 | Hangs \<Rightarrow> (Hangs, p2, w1)
                 | Returns (h, es') \<Rightarrow>
                     (Returns (init_error ierr h (err_text sc)), p2\<lparr>cmdStdout := Some es'\<rparr>, w1)))"

text \<open>
  \<^verbatim>\<open>close\<close>. The \<^verbatim>\<open>select\<close> receives from \<^verbatim>\<open>runGoroutineExitedChan\<close> when the goroutine
  waits to send, and returns. Otherwise the deferred function receives from the
  channel, whatever the body does, a nil \<^verbatim>\<open>p.cmd\<close>, a panic and an error of
  \<^verbatim>\<open>Kill\<close> included: the call returns only when a goroutine sends. With a running
  worker the body closes the input pipe and kills the process; \<^verbatim>\<open>cmd.Wait\<close> returns,
  the goroutine stores its error and sends. Without a goroutine, or after it has sent,
  nobody sends and the call never returns.
\<close>

definition close :: "Ppocr \<Rightarrow> go_error option outcome \<times> Ppocr" where
  "close p =
     (case cmd p of
        None \<Rightarrow> (Hangs, p)
      | Some c \<Rightarrow>
          (case pstate c of
             Exited \<Rightarrow> (Returns None, p\<lparr>cmd := Some (c\<lparr>pstate := Reaped\<rparr>)\<rparr>)
           | Reaped \<Rightarrow> (Hangs, p)
           | NotStarted \<Rightarrow> (Hangs, p\<lparr>cmdStdin := map_option (\<lambda>f. f\<lparr>closed := True\<rparr>) (cmdStdin p)\<rparr>)
           | Running \<Rightarrow>
               (Returns None,
                p\<lparr>cmdStdin := map_option (\<lambda>f. f\<lparr>closed := True\<rparr>) (cmdStdin p),
                  cmdStdout := Some [ReadErr ErrClosed],
                  cmd := Some (c\<lparr>pstate := Reaped\<rparr>),
                  internalErr := (case wait_result c of None \<Rightarrow> internalErr p
                                  | Some err \<Rightarrow> Some err)\<rparr>)))"

text \<open>
  \<^verbatim>\<open>NewPpocr\<close>, with the world after it. The value returned with an error is the
  pointer \<open>p\<close>, and \<open>nil\<close> when the file is missing.
\<close>

definition NewPpocr ::
  "world \<Rightarrow> string \<Rightarrow> OcrArgs \<Rightarrow> (Ppocr option \<times> go_error option) outcome \<times> world" where
  "NewPpocr w exePath' args' =
     (if \<not> fileIsExist w exePath'
      then (Returns (None, Some (GoError (''executable file '' @ exePath' @ '' not found''))), w)
      else (let p = \<lparr>exePath = exePath', args = args', ppLock = False,
                       restartExitChan_closed = False, internalErr = None, cmdStdout = None,
                       cmdStdin = None, cmd = None, restartTimer = False\<rparr>
            in case initPpocr w p exePath' args' of
                 (Panics m, p1, w1) \<Rightarrow> (Panics m, w1)
               | (Hangs, p1, w1) \<Rightarrow> (Hangs, w1)
               | (Returns None, p1, w1) \<Rightarrow> (Returns (Some (p1\<lparr>restartTimer := True\<rparr>), None), w1)
               | (Returns (Some err), p1, w1) \<Rightarrow>
                   (case close p1 of
                      (Returns r, p2) \<Rightarrow> (Returns (Some p2, Some err), w1)
                    | (Hangs, p2) \<Rightarrow> (Hangs, w1)
                    | (Panics m, p2) \<Rightarrow> (Panics m, w1))))"

text \<open>
  \<^verbatim>\<open>Close\<close>, and one tick of the timer in \<^verbatim>\<open>restartTimer\<close>. Both take the mutex; a
  call of \<^verbatim>\<open>close\<close> or \<^verbatim>\<open>initPpocr\<close> that never returns keeps it. The goroutine
  \<^verbatim>\<open>restartTimer\<close> has returned once \<^verbatim>\<open>restartExitChan\<close> is closed.
\<close>

definition closedErr :: go_error where
  "closedErr = GoError ''OCR process has been closed''"

definition Close :: "Ppocr \<Rightarrow> go_error option outcome \<times> Ppocr" where
  "Close p =
     (if ppLock p then (Hangs, p)
      else if restartExitChan_closed p then (Returns (Some closedErr), p)
      else (case close (p\<lparr>restartExitChan_closed := True, internalErr := Some closedErr\<rparr>) of
              (Hangs, p1) \<Rightarrow> (Hangs, p1\<lparr>ppLock := True\<rparr>)
            | (r, p1) \<Rightarrow> (r, p1)))"

definition restart :: "world \<Rightarrow> Ppocr \<Rightarrow> unit outcome \<times> Ppocr \<times> world" where
  "restart w p =
     (if \<not> restartTimer p \<or> restartExitChan_closed p then (Returns (), p, w)
      else if ppLock p then (Hangs, p, w)
      else (case close p of
              (Hangs, p1) \<Rightarrow> (Hangs, p1\<lparr>ppLock := True\<rparr>, w)
            | (Panics m, p1) \<Rightarrow> (Panics m, p1, w)
            | (Returns r, p1) \<Rightarrow>
                (case initPpocr w p1 (exePath p1) (args p1) of
                   (Hangs, p2, w1) \<Rightarrow> (Hangs, p2\<lparr>ppLock := True\<rparr>, w1)
                 | (Panics m, p2, w1) \<Rightarrow> (Panics m, p2, w1)
                 | (Returns err, p2, w1) \<Rightarrow> (Returns (), p2\<lparr>internalErr := err\<rparr>, w1))))"

subsection \<open>Requests\<close>

text \<open>
  \<^verbatim>\<open>imageData\<close> and \<^verbatim>\<open>json.Marshal\<close> of it: both fields have \<^verbatim>\<open>omitempty\<close>, so an
  empty path and an empty image are left out; a byte slice is written in base64, with
  padding.
\<close>

record imageData =
  Path :: string
  ContentB64 :: string

definition b64_char :: "nat \<Rightarrow> char" where
  "b64_char n =
     (if n < 26 then char_of (65 + n)
      else if n < 52 then char_of (71 + n)
      else if n < 62 then char_of (n - 4)
      else if n = 62 then CHR ''+'' else CHR ''/'')"

fun base64 :: "string \<Rightarrow> string" where
  "base64 [] = []"
| "base64 [a] =
     (let x = (of_char a :: nat)
      in [b64_char (x div 4), b64_char (x mod 4 * 16), CHR ''='', CHR ''=''])"
| "base64 [a, b] =
     (let x = (of_char a :: nat); y = (of_char b :: nat)
      in [b64_char (x div 4), b64_char (x mod 4 * 16 + y div 16), b64_char (y mod 16 * 4),
          CHR ''=''])"
| "base64 (a # b # c # rest) =
     (let x = (of_char a :: nat); y = (of_char b :: nat); z = (of_char c :: nat)
      in [b64_char (x div 4), b64_char (x mod 4 * 16 + y div 16),
          b64_char (y mod 16 * 4 + z div 64), b64_char (z mod 64)] @ base64 rest)"

definition json_Marshal_imageData :: "golib \<Rightarrow> imageData \<Rightarrow> go_error + string" where
  "json_Marshal_imageData L d =
     Inr (''{'' @
          Join_with '',''
            ((if Path d = [] then [] else [''\"image_path\":'' @ json_String L (Path d)]) @
             (if ContentB64 d = [] then []
              else [''\"image_base64\":\"'' @ base64 (ContentB64 d) @ ''\"''])) @
          ''}'')"

text \<open>
  \<^verbatim>\<open>ocr\<close>: two writes, then the receive loop. \<open>ocr_locked\<close> is \<^verbatim>\<open>ocr\<close> under the
  mutex: a call that never returns keeps the mutex.
\<close>

definition ocr :: "Ppocr \<Rightarrow> string \<Rightarrow> (string \<times> go_error option) outcome \<times> Ppocr" where
  "ocr p dataJson =
     (case cmdStdin p of
        None \<Rightarrow> (Panics ''invalid memory address or nil pointer dereference'', p)
      | Some f \<Rightarrow>
          (case Write_pipe f dataJson of
             (Some err, f1) \<Rightarrow> (Returns ([], Some err), p\<lparr>cmdStdin := Some f1\<rparr>)
           | (None, f1) \<Rightarrow>
               (case Write_pipe f1 [newline] of
                  (Some err, f2) \<Rightarrow> (Returns ([], Some err), p\<lparr>cmdStdin := Some f2\<rparr>)
                | (None, f2) \<Rightarrow>
                    (case cmdStdout p of
                       None \<Rightarrow> (Panics ''invalid memory address or nil pointer dereference'',
                                 p\<lparr>cmdStdin := Some f2\<rparr>)
                     | Some es \<Rightarrow>
                         (case ocr_loop es of
                            Panics m \<Rightarrow> (Panics m, p\<lparr>cmdStdin := Some f2\<rparr>)
                          | Hangs \<Rightarrow> (Hangs, p\<lparr>cmdStdin := Some f2\<rparr>)
                          | Returns (r, es') \<Rightarrow>
                              (Returns r, p\<lparr>cmdStdin := Some f2, cmdStdout := Some es'\<rparr>))))))"

definition ocr_locked :: "Ppocr \<Rightarrow> string \<Rightarrow> (string \<times> go_error option) outcome \<times> Ppocr" where
  "ocr_locked p dataJson =
     (case ocr p dataJson of
        (Hangs, p1) \<Rightarrow> (Hangs, p1\<lparr>ppLock := True\<rparr>)
      | (r, p1) \<Rightarrow> (r, p1))"

text \<open>
  \<^verbatim>\<open>OcrFile\<close> looks at \<^verbatim>\<open>p.internalErr\<close> under the mutex, \<^verbatim>\<open>Ocr\<close> before it takes the
  mutex.
\<close>

definition OcrFile :: "golib \<Rightarrow> Ppocr \<Rightarrow> string \<Rightarrow> (string \<times> go_error option) outcome \<times> Ppocr" where
  "OcrFile L p imagePath =
     (case json_Marshal_imageData L \<lparr>Path = imagePath, ContentB64 = []\<rparr> of
        Inl err \<Rightarrow> (Returns ([], Some err), p)
      | Inr dataJson \<Rightarrow>
          if ppLock p then (Hangs, p)
          else if internalErr p \<noteq> None then (Returns ([], internalErr p), p)
          else ocr_locked p dataJson)"

definition Ocr :: "golib \<Rightarrow> Ppocr \<Rightarrow> string \<Rightarrow> (string \<times> go_error option) outcome \<times> Ppocr" where
  "Ocr L p img =
     (if internalErr p \<noteq> None then (Returns ([], internalErr p), p)
      else (case json_Marshal_imageData L \<lparr>Path = [], ContentB64 = img\<rparr> of
              Inl err \<Rightarrow> (Returns ([], Some err), p)
            | Inr dataJson \<Rightarrow> if ppLock p then (Hangs, p) else ocr_locked p dataJson))"

subsection \<open>Sessions\<close>

text \<open>
  A session is \<^verbatim>\<open>NewPpocr\<close> followed by calls of the methods and ticks of the restart
  timer, one after the other; it lists what each call gives: a result, a panic, or
  nothing because the call never returns.
\<close>

datatype event = Tick | CallOcrFile string | CallOcr string | CallClose

datatype answer = Blocks | Crashes string | Gives string "go_error option"

fun answer_of :: "(string \<times> go_error option) outcome \<Rightarrow> answer" where
  "answer_of Hangs = Blocks"
| "answer_of (Panics m) = Crashes m"
| "answer_of (Returns (b, err)) = Gives b err"

fun run :: "golib \<Rightarrow> world \<Rightarrow> Ppocr \<Rightarrow> event list \<Rightarrow> answer list" where
  "run L w p [] = []"
| "run L w p (Tick # evs) =
     (case restart w p of
        (r, p1, w1) \<Rightarrow> answer_of (case r of Hangs \<Rightarrow> Hangs | Panics m \<Rightarrow> Panics m
                                     | Returns u \<Rightarrow> Returns ([], None)) # run L w1 p1 evs)"
| "run L w p (CallOcrFile imagePath # evs) =
     (case OcrFile L p imagePath of (r, p1) \<Rightarrow> answer_of r # run L w p1 evs)"
| "run L w p (CallOcr img # evs) =
     (case Ocr L p img of (r, p1) \<Rightarrow> answer_of r # run L w p1 evs)"
| "run L w p (CallClose # evs) =
     (case Close p of
        (r, p1) \<Rightarrow> answer_of (case r of Hangs \<Rightarrow> Hangs | Panics m \<Rightarrow> Panics m
                                 | Returns err \<Rightarrow> Returns ([], err)) # run L w p1 evs)"

definition session :: "golib \<Rightarrow> world \<Rightarrow> string \<Rightarrow> OcrArgs \<Rightarrow> event list \<Rightarrow> answer list" where
  "session L w path a evs =
     (case NewPpocr w path a of
        (Returns (Some p, None), w1) \<Rightarrow> Gives [] None # run L w1 p evs
      | (Returns (Some p, Some err), w1) \<Rightarrow> [Gives [] (Some err)]
      | (Returns (None, err), w1) \<Rightarrow> [Gives [] err]
      | (Hangs, w1) \<Rightarrow> [Blocks]
      | (Panics m, w1) \<Rightarrow> [Crashes m])"

text \<open>
  Workers and worlds for the examples: a worker that completes the handshake in three
  chunks; one whose marker comes in a chunk that fills the buffer; one that has exited
  with an error when its marker is read; a world in which the first launch succeeds and
  every later one fails in \<^verbatim>\<open>cmd.Start\<close>.
\<close>

definition worker_path :: string where
  "worker_path = ''/opt/ocr/PaddleOCR-json''"

definition no_args :: OcrArgs where
  "no_args = \<lparr>Cls = None, EnableMkldnn = None, LimitSideLen = None, UseAngleCls = None,
               ConfigPath = []\<rparr>"

definition files :: "string \<Rightarrow> errno + bool" where
  "files path =
     (if path = worker_path then Inr False else if path = ''/opt/ocr'' then Inr True
      else Inl ENOENT)"

definition ready_script :: script where
  "ready_script =
     \<lparr>out_events = [Bytes ''PaddleOCR-json v1.3.1'', Bytes ''OCR init comp'', Bytes ''leted.''],
      in_faults = [], wait_err = Some (GoError ''signal: killed''), ended = False, err_text = []\<rparr>"

definition full_script :: script where
  "full_script =
     \<lparr>out_events = [Bytes (marker @ replicate 4077 (CHR ''.''))],
      in_faults = [], wait_err = Some (GoError ''signal: killed''), ended = False, err_text = []\<rparr>"

definition crashed_script :: script where
  "crashed_script =
     \<lparr>out_events = [Bytes marker],
      in_faults = [], wait_err = Some (GoError ''exit status 1''), ended = True, err_text = []\<rparr>"

definition world_of :: "(nat \<Rightarrow> launch) \<Rightarrow> world" where
  "world_of f = \<lparr>os_Stat = files, exec = (\<lambda>path line n. f n), launched = []\<rparr>"

definition start_fails :: launch where
  "start_fails = StartFails (GoError ''fork/exec ./PaddleOCR-json: permission denied'')"

definition faulty_world :: world where
  "faulty_world = world_of (\<lambda>n. if n = 0 then Starts ready_script else start_fails)"

definition ready_Ppocr :: Ppocr where
  "ready_Ppocr =
     \<lparr>exePath = worker_path, args = no_args, ppLock = False, restartExitChan_closed = False,
      internalErr = None, cmdStdout = Some [], cmdStdin = Some \<lparr>bytes_written = [], faults = [], closed = False\<rparr>,
      cmd = Some \<lparr>pstate = Running, wait_result = Some (GoError ''signal: killed'')\<rparr>,
      restartTimer = True\<rparr>"

text \<open>
  The world after one and after two launches, and the supervisor after a restart whose
  \<^verbatim>\<open>cmd.Start\<close> has failed.
\<close>

definition launched_once :: world where
  "launched_once = faulty_world\<lparr>launched := [(worker_path, [])]\<rparr>"

definition launched_twice :: world where
  "launched_twice = faulty_world\<lparr>launched := [(worker_path, []), (worker_path, [])]\<rparr>"

definition start_failed :: go_error where
  "start_failed = GoError ''OCR process start failed: fork/exec ./PaddleOCR-json: permission denied''"

definition failed_Ppocr :: Ppocr where
  "failed_Ppocr =
     \<lparr>exePath = worker_path, args = no_args, ppLock = False, restartExitChan_closed = False,
      internalErr = Some start_failed, cmdStdout = Some [ReadErr ErrClosed],
      cmdStdin = Some \<lparr>bytes_written = [], faults = [], closed = True\<rparr>,
      cmd = Some \<lparr>pstate = NotStarted, wait_result = None\<rparr>,
      restartTimer = True\<rparr>"
section \<open>Theorems\<close>

subsection \<open>\<^verbatim>\<open>CmdString\<close> renders the non-default fields\<close>

lemma IsSpace_ascii_mem: "IsSpace r \<Longrightarrow> c \<in> set r \<Longrightarrow> ascii c \<Longrightarrow> r = [c] \<and> asciiSpace c"
  using unicode_space_mem [of r] by (auto simp: IsSpace_cases)

lemma IsSpace_single: "IsSpace [c] = asciiSpace c"
  by (simp add: IsSpace_def)

lemma leading_space_ascii: "ascii c \<Longrightarrow> \<not> asciiSpace c \<Longrightarrow> leading_space (c # s) = 0"
  using IsSpace_ascii_mem [of "c # take 1 s" c] IsSpace_ascii_mem [of "c # take 2 s" c]
  by (auto simp: leading_space_def IsSpace_single)

lemma not_IsSpace_last:
  assumes "s \<noteq> []" "ascii (last s)" "\<not> asciiSpace (last s)" "m < length s"
  shows "\<not> IsSpace (drop m s)"
proof
  assume "IsSpace (drop m s)"
  moreover have "last (drop m s) = last s" using assms by simp
  moreover have "drop m s \<noteq> []" using assms by simp
  ultimately show False
    using IsSpace_ascii_mem [of "drop m s" "last s"] assms last_in_set [of "drop m s"] by auto
qed

lemma trailing_space_ascii_last:
  "s \<noteq> [] \<Longrightarrow> ascii (last s) \<Longrightarrow> \<not> asciiSpace (last s) \<Longrightarrow> trailing_space s = 0"
  by (simp add: trailing_space_def Let_def not_IsSpace_last)

lemma trailing_space_snoc_space: "trailing_space (s @ '' '') = 1"
  by (simp add: trailing_space_def IsSpace_single asciiSpace_def)

lemma not_IsSpace_straddle:
  assumes "x \<noteq> []" "p \<noteq> []" "ascii (last p)" "m < length p"
  shows "\<not> IsSpace (drop m p @ x)"
proof
  assume a: "IsSpace (drop m p @ x)"
  have "last p \<in> set (drop m p)"
    using assms last_in_set [of "drop m p"] by simp
  then have "drop m p @ x = [last p]"
    using IsSpace_ascii_mem [OF a, of "last p"] assms by simp
  then show False using assms by (simp add: append_eq_Cons_conv)
qed

lemma trailing_space_append:
  assumes "x \<noteq> []" "p = [] \<or> ascii (last p)"
  shows "trailing_space (p @ x) = trailing_space x"
proof (cases "p = []")
  case True
  then show ?thesis by simp
next
  case False
  then have ap: "ascii (last p)" using assms by simp
  have w: "\<And>k. k \<le> length x \<Longrightarrow> drop (length (p @ x) - k) (p @ x) = drop (length x - k) x"
    by simp
  have s: "\<And>k. length x < k \<Longrightarrow> \<not> IsSpace (drop (length (p @ x) - k) (p @ x))"
  proof -
    fix k assume k: "length x < k"
    define n where "n = length p - (k - length x)"
    have lp: "0 < length p" using False by simp
    have n1: "length (p @ x) - k = n" using k unfolding n_def length_append by arith
    have n2: "n < length p" using k lp unfolding n_def by arith
    have "drop n (p @ x) = drop n p @ x" using n2 by simp
    then show "\<not> IsSpace (drop (length (p @ x) - k) (p @ x))"
      using not_IsSpace_straddle [OF assms(1) False ap n2] n1 by simp
  qed
  have t: "\<And>k. length x < k \<Longrightarrow> drop (length x - k) x = x" by simp
  have "0 < length x" using assms(1) by simp
  then consider "length x = 1" | "length x = 2" | "3 \<le> length x"
    by arith
  then show ?thesis
  proof cases
    case 1
    then show ?thesis
      using w [of 1] s [of 2] s [of 3] t [of 2] t [of 3]
      by (simp add: trailing_space_def Let_def del: length_append drop_append)
  next
    case 2
    then show ?thesis
      using w [of 1] w [of 2] s [of 3] t [of 3]
      by (simp add: trailing_space_def Let_def del: length_append drop_append)
  next
    case 3
    then show ?thesis
      using w [of 1] w [of 2] w [of 3]
      by (simp add: trailing_space_def Let_def del: length_append drop_append)
  qed
qed

lemma CmdString_field_bool:
  "tag \<noteq> [] \<Longrightarrow> CmdString_field s (tag, PtrBool p) =
     s @ concat (map (\<lambda>r. r @ '' '') (case p of None \<Rightarrow> [] | Some b \<Rightarrow> [name_value tag (flag_text b)]))"
  by (simp add: flag_text_def name_value_def split: option.splits)

lemma CmdString_field_int32:
  "tag \<noteq> [] \<Longrightarrow> CmdString_field s (tag, PtrInt32 p) =
     s @ concat (map (\<lambda>r. r @ '' '') (case p of None \<Rightarrow> [] | Some n \<Rightarrow> [name_value tag (Sprint_int (sint n))]))"
  by (simp add: name_value_def split: option.splits)

lemma CmdString_field_string:
  "tag \<noteq> [] \<Longrightarrow> CmdString_field s (tag, StringVal x) =
     s @ concat (map (\<lambda>r. r @ '' '') (if x = [] then [] else [name_value tag x]))"
  by (simp add: name_value_def)

lemma CmdString_loop:
  "foldl CmdString_field [] (OcrArgs_fields a) = concat (map (\<lambda>r. r @ '' '') (spec_fields a))"
  unfolding OcrArgs_fields_def spec_fields_def foldl.simps
  by (simp only: CmdString_field_bool CmdString_field_int32 CmdString_field_string
        map_append concat_append append_assoc append_Nil list.distinct not_False_eq_True)

lemma Join_sp_snoc:
  "rs \<noteq> [] \<Longrightarrow> concat (map (\<lambda>r. r @ '' '') rs) = Join_sp rs @ '' ''"
  by (induction rs rule: Join_sp.induct) simp_all

lemma Join_sp_split:
  "rs \<noteq> [] \<Longrightarrow> \<exists>p. Join_sp rs = p @ last rs \<and> (p = [] \<or> last p = CHR '' '')"
proof (induction rs rule: Join_sp.induct)
  case 1
  then show ?case by simp
next
  case (2 r)
  then show ?case by simp
next
  case (3 r r' rs)
  then obtain p where p: "Join_sp (r' # rs) = p @ last (r' # rs)" "p = [] \<or> last p = CHR '' ''"
    by auto
  have "Join_sp (r # r' # rs) = (r @ '' '' @ p) @ last (r # r' # rs)"
    using p(1) by simp
  moreover have "last (r @ '' '' @ p) = CHR '' ''" using p(2) by auto
  ultimately show ?case by blast
qed

lemma Join_sp_hd:
  "rs \<noteq> [] \<Longrightarrow> hd rs \<noteq> [] \<Longrightarrow> \<exists>t. Join_sp rs = hd (hd rs) # t"
  by (induction rs rule: Join_sp.induct) (auto simp: neq_Nil_conv)

lemma digit_char_ascii: "d < 10 \<Longrightarrow> ascii (digit_char d) \<and> \<not> asciiSpace (digit_char d)"
proof -
  assume d: "d < 10"
  have v: "(of_char (digit_char d) :: nat) = 48 + d"
    using d by (simp add: digit_char_def)
  have "asciiSpace c \<Longrightarrow> (of_char c :: nat) \<le> 32" for c
    by (auto simp: asciiSpace_def)
  then show ?thesis using v d by (fastforce simp: ascii_def)
qed

lemma decimal_last: "decimal n \<noteq> [] \<and> last (decimal n) = digit_char (n mod 10)"
  by (subst (1 2) decimal.simps) simp

lemma Sprint_int_last:
  "Sprint_int i \<noteq> [] \<and> ascii (last (Sprint_int i)) \<and> \<not> asciiSpace (last (Sprint_int i))"
  using decimal_last digit_char_ascii by (simp add: Sprint_int_def)

lemma flag_text_last:
  "flag_text b \<noteq> [] \<and> ascii (last (flag_text b)) \<and> \<not> asciiSpace (last (flag_text b))"
  by (simp add: flag_text_def ascii_def asciiSpace_def)

lemma trailing_space_kv:
  assumes "v \<noteq> []" "ascii (last v)" "\<not> asciiSpace (last v)"
  shows "trailing_space (name_value k v) = 0"
  using trailing_space_ascii_last [of "k @ ''='' @ v"] assms by (simp add: name_value_def)

lemma spec_fields_cases:
  assumes "r \<in> set (spec_fields a)"
  obtains (cls) b where "r = name_value ''cls'' (flag_text b)"
    | (mkldnn) b where "r = name_value ''enable_mkldnn'' (flag_text b)"
    | (side_len) n where "r = name_value ''limit_side_len'' (Sprint_int n)"
    | (angle) b where "r = name_value ''use_angle_cls'' (flag_text b)"
    | (path) "ConfigPath a \<noteq> []" "r = name_value ''config_path'' (ConfigPath a)"
proof -
  have "r \<in> set (case Cls a of None \<Rightarrow> [] | Some b \<Rightarrow> [name_value ''cls'' (flag_text b)])
      \<or> r \<in> set (case EnableMkldnn a of None \<Rightarrow> [] | Some b \<Rightarrow> [name_value ''enable_mkldnn'' (flag_text b)])
      \<or> r \<in> set (case LimitSideLen a of None \<Rightarrow> [] | Some n \<Rightarrow> [name_value ''limit_side_len'' (Sprint_int (sint n))])
      \<or> r \<in> set (case UseAngleCls a of None \<Rightarrow> [] | Some b \<Rightarrow> [name_value ''use_angle_cls'' (flag_text b)])
      \<or> r \<in> set (if ConfigPath a = [] then [] else [name_value ''config_path'' (ConfigPath a)])"
    using assms unfolding spec_fields_def set_append Un_iff by blast
  then show thesis
  proof (elim disjE)
    assume "r \<in> set (case Cls a of None \<Rightarrow> [] | Some b \<Rightarrow> [name_value ''cls'' (flag_text b)])"
    then show thesis using cls by (cases "Cls a") simp_all
  next
    assume "r \<in> set (case EnableMkldnn a of None \<Rightarrow> [] | Some b \<Rightarrow> [name_value ''enable_mkldnn'' (flag_text b)])"
    then show thesis using mkldnn by (cases "EnableMkldnn a") simp_all
  next
    assume "r \<in> set (case LimitSideLen a of None \<Rightarrow> [] | Some n \<Rightarrow> [name_value ''limit_side_len'' (Sprint_int (sint n))])"
    then show thesis using side_len by (cases "LimitSideLen a") simp_all
  next
    assume "r \<in> set (case UseAngleCls a of None \<Rightarrow> [] | Some b \<Rightarrow> [name_value ''use_angle_cls'' (flag_text b)])"
    then show thesis using angle by (cases "UseAngleCls a") simp_all
  next
    assume "r \<in> set (if ConfigPath a = [] then [] else [name_value ''config_path'' (ConfigPath a)])"
    then show thesis using path by (cases "ConfigPath a = []") simp_all
  qed
qed

lemma spec_fields_trailing:
  assumes "trailing_space (ConfigPath a) = 0" "r \<in> set (spec_fields a)"
  shows "trailing_space r = 0"
  using assms(2)
proof (cases rule: spec_fields_cases)
  case path
  have "ascii (last ''config_path='')" by (simp add: ascii_def)
  then have "trailing_space (''config_path='' @ ConfigPath a) = trailing_space (ConfigPath a)"
    using trailing_space_append [OF path(1), of "''config_path=''"] by blast
  then show ?thesis using path(2) assms(1) by (simp add: name_value_def)
qed (simp_all add: trailing_space_kv flag_text_last Sprint_int_last)

lemma name_value_head:
  "ascii c \<Longrightarrow> \<not> asciiSpace c \<Longrightarrow> \<exists>d t. name_value (c # k) v = d # t \<and> ascii d \<and> \<not> asciiSpace d"
  by (simp add: name_value_def)

lemma letter_c: "ascii CHR ''c'' \<and> \<not> asciiSpace CHR ''c''"
  by (simp add: ascii_def asciiSpace_def)

lemma letter_e: "ascii CHR ''e'' \<and> \<not> asciiSpace CHR ''e''"
  by (simp add: ascii_def asciiSpace_def)

lemma letter_l: "ascii CHR ''l'' \<and> \<not> asciiSpace CHR ''l''"
  by (simp add: ascii_def asciiSpace_def)

lemma letter_u: "ascii CHR ''u'' \<and> \<not> asciiSpace CHR ''u''"
  by (simp add: ascii_def asciiSpace_def)

lemma spec_fields_head:
  assumes "r \<in> set (spec_fields a)"
  shows "\<exists>c t. r = c # t \<and> ascii c \<and> \<not> asciiSpace c"
  using assms
proof (cases rule: spec_fields_cases)
  case (cls b)
  then show ?thesis using name_value_head [of "CHR ''c''" "''ls''"] letter_c by simp
next
  case (mkldnn b)
  then show ?thesis using name_value_head [of "CHR ''e''" "''nable_mkldnn''"] letter_e by simp
next
  case (side_len n)
  then show ?thesis using name_value_head [of "CHR ''l''" "''imit_side_len''"] letter_l by simp
next
  case (angle b)
  then show ?thesis using name_value_head [of "CHR ''u''" "''se_angle_cls''"] letter_u by simp
next
  case path
  then show ?thesis using name_value_head [of "CHR ''c''" "''onfig_path''"] letter_c by simp
qed

lemma trim_left_id: "leading_space s = 0 \<Longrightarrow> trim_left s = s"
  by (simp add: trim_left.simps)

lemma trim_right_id: "trailing_space s = 0 \<Longrightarrow> trim_right s = s"
  by (simp add: trim_right.simps)

lemma trim_right_snoc_space: "trim_right (s @ '' '') = trim_right s"
  by (subst trim_right.simps) (simp add: trailing_space_snoc_space)

lemma trailing_space_trim_right: "trailing_space (trim_right s) = 0"
  by (induction s rule: trim_right.induct) (simp add: trim_right.simps)

lemma trailing_space_window:
  "trailing_space s \<noteq> 0 \<Longrightarrow> IsSpace (drop (length s - trailing_space s) s)"
  by (auto simp: trailing_space_def Let_def split: if_splits)

lemma trim_right_keeps_head:
  "ascii c \<Longrightarrow> \<not> asciiSpace c \<Longrightarrow> \<exists>t'. trim_right (c # t) = c # t'"
proof (induction "c # t" arbitrary: t rule: trim_right.induct)
  case 1
  show ?case
  proof (cases "trailing_space (c # t) = 0")
    case True
    then show ?thesis by (simp add: trim_right.simps)
  next
    case False
    let ?k = "trailing_space (c # t)"
    have w: "IsSpace (drop (length (c # t) - ?k) (c # t))"
      using trailing_space_window [OF False] .
    have "length (c # t) - ?k \<noteq> 0"
    proof
      assume "length (c # t) - ?k = 0"
      then have "IsSpace (c # t)" using w by simp
      then show False using IsSpace_ascii_mem [of "c # t" c] 1 by simp
    qed
    then obtain m where m: "length (c # t) - ?k = Suc m" by (cases "length (c # t) - ?k") auto
    then have tk: "take (length (c # t) - ?k) (c # t) = c # take m t" by simp
    have "\<exists>t'. trim_right (c # take m t) = c # t'"
      using 1(1) [OF False] tk 1(2,3) by simp
    then show ?thesis using False tk by (subst trim_right.simps) simp
  qed
qed

lemma CmdString_trim: "CmdString a = trim_right (Join_sp (spec_fields a))"
proof (cases "spec_fields a = []")
  case True
  then show ?thesis
    by (simp add: CmdString_def TrimSpace_def CmdString_loop trim_left.simps trim_right.simps
          leading_space_def trailing_space_def)
next
  case False
  then have hd_in: "hd (spec_fields a) \<in> set (spec_fields a)" by simp
  then obtain c t where ct: "hd (spec_fields a) = c # t" "ascii c" "\<not> asciiSpace c"
    using spec_fields_head by blast
  then obtain u where u: "Join_sp (spec_fields a) = c # u"
    using Join_sp_hd [OF False] by auto
  have "leading_space (Join_sp (spec_fields a) @ '' '') = 0"
    using leading_space_ascii [OF ct(2,3)] u by simp
  then show ?thesis
    by (simp add: CmdString_def TrimSpace_def CmdString_loop Join_sp_snoc [OF False]
          trim_left_id trim_right_snoc_space)
qed

lemma CmdString_leading: "leading_space (CmdString a) = 0"
proof (cases "spec_fields a = []")
  case True
  then show ?thesis
    by (simp add: CmdString_trim trim_right.simps leading_space_def trailing_space_def)
next
  case False
  then have "hd (spec_fields a) \<in> set (spec_fields a)" by simp
  then obtain c t where ct: "hd (spec_fields a) = c # t" "ascii c" "\<not> asciiSpace c"
    using spec_fields_head by blast
  then obtain u where u: "Join_sp (spec_fields a) = c # u"
    using Join_sp_hd [OF False] by auto
  obtain u' where "trim_right (c # u) = c # u'"
    using trim_right_keeps_head [OF ct(2,3)] by blast
  then show ?thesis
    using leading_space_ascii [OF ct(2,3)] u by (simp add: CmdString_trim)
qed

lemma Join_sp_trailing:
  assumes "trailing_space (ConfigPath a) = 0"
  shows "trailing_space (Join_sp (spec_fields a)) = 0"
proof (cases "spec_fields a = []")
  case True
  then show ?thesis by (simp add: trailing_space_def)
next
  case False
  obtain p where p: "Join_sp (spec_fields a) = p @ last (spec_fields a)"
      "p = [] \<or> last p = CHR '' ''"
    using Join_sp_split [OF False] by blast
  have l: "last (spec_fields a) \<in> set (spec_fields a)" using False by simp
  then have ne: "last (spec_fields a) \<noteq> []" using spec_fields_head by fastforce
  have "p = [] \<or> ascii (last p)" using p(2) by (auto simp: ascii_def)
  then show ?thesis
    using trailing_space_append [OF ne, of p] spec_fields_trailing [OF assms l] p(1) by simp
qed


text \<open>
  Claim C9, as the code has it. \<^verbatim>\<open>CmdString\<close> is the blank-separated list of the
  non-default fields, each as \<^verbatim>\<open>name=value\<close> with booleans as 1 or 0, in declaration
  order (\<^verbatim>\<open>Cls\<close>, \<^verbatim>\<open>EnableMkldnn\<close>, \<^verbatim>\<open>LimitSideLen\<close>, \<^verbatim>\<open>UseAngleCls\<close>,
  \<^verbatim>\<open>ConfigPath\<close>), with the white space at its end trimmed off. It never starts or
  ends with white space, and it is exactly the joined list whenever \<^verbatim>\<open>ConfigPath\<close>,
  the only free-text field and the last one, does not itself end in white space.
\<close>

theorem CmdString_renders_fields:
  "CmdString a = trim_right (Join_sp (spec_fields a)) \<and>
   leading_space (CmdString a) = 0 \<and> trailing_space (CmdString a) = 0 \<and>
   (trailing_space (ConfigPath a) = 0 \<longrightarrow> CmdString a = Join_sp (spec_fields a))"
  using CmdString_trim [of a] CmdString_leading [of a] trailing_space_trim_right
    Join_sp_trailing [of a] trim_right_id
  by simp


text \<open>The last case of the package's own test table, through the theorem.\<close>

lemma trailing_space_test: "trailing_space ''models/config_chinese.txt'' = 0"
  by (rule trailing_space_ascii_last) (simp_all add: ascii_def asciiSpace_def)

theorem CmdString_renders_fields_witness:
  "trailing_space ''models/config_chinese.txt'' = 0 \<and>
   CmdString \<lparr>Cls = Some True, EnableMkldnn = Some True, LimitSideLen = Some 960,
     UseAngleCls = Some True, ConfigPath = ''models/config_chinese.txt''\<rparr> =
   ''cls=1 enable_mkldnn=1 limit_side_len=960 use_angle_cls=1 config_path=models/config_chinese.txt''"
proof -
  let ?a = "\<lparr>Cls = Some True, EnableMkldnn = Some True, LimitSideLen = Some (960 :: 32 word),
     UseAngleCls = Some True, ConfigPath = ''models/config_chinese.txt''\<rparr>"
  have d: "decimal 960 = ''960''" by code_simp
  have j: "Join_sp (spec_fields ?a) =
    ''cls=1 enable_mkldnn=1 limit_side_len=960 use_angle_cls=1 config_path=models/config_chinese.txt''"
    by (simp add: spec_fields_def name_value_def flag_text_def Sprint_int_def d)
  have "trailing_space (ConfigPath ?a) = 0 \<longrightarrow> CmdString ?a = Join_sp (spec_fields ?a)"
    using CmdString_renders_fields [of ?a] by blast
  then have "CmdString ?a = Join_sp (spec_fields ?a)"
    using trailing_space_test by simp
  then show ?thesis
    using j trailing_space_test by simp
qed


text \<open>
  Claim C9 as stated fails where \<^verbatim>\<open>ConfigPath\<close> ends in white space: for the path
  \<^verbatim>\<open>"a "\<close> the field is not rendered as \<^verbatim>\<open>config_path=\<close> followed by its value;
  the value's final blank is trimmed with the separator.
\<close>

theorem CmdString_trailing_space_counterexample:
  "CmdString \<lparr>Cls = None, EnableMkldnn = None, LimitSideLen = None, UseAngleCls = None,
     ConfigPath = ''a ''\<rparr> = ''config_path=a'' \<and>
   CmdString \<lparr>Cls = None, EnableMkldnn = None, LimitSideLen = None, UseAngleCls = None,
     ConfigPath = ''a ''\<rparr> \<noteq>
   Join_sp (spec_fields \<lparr>Cls = None, EnableMkldnn = None, LimitSideLen = None, UseAngleCls = None,
     ConfigPath = ''a ''\<rparr>)"
proof -
  let ?a = "\<lparr>Cls = None, EnableMkldnn = None, LimitSideLen = None, UseAngleCls = None,
     ConfigPath = ''a ''\<rparr>"
  have j: "Join_sp (spec_fields ?a) = ''config_path=a ''"
    by (simp add: spec_fields_def name_value_def)
  have "trim_right ''config_path=a '' = trim_right ''config_path=a''"
    using trim_right_snoc_space [of "''config_path=a''"] by simp
  moreover have "trailing_space ''config_path=a'' = 0"
    by (rule trailing_space_ascii_last) (simp_all add: ascii_def asciiSpace_def)
  ultimately have t: "trim_right ''config_path=a '' = ''config_path=a''"
    by (simp add: trim_right_id)
  have c: "CmdString ?a = ''config_path=a''"
    unfolding CmdString_trim j t ..
  show ?thesis unfolding c j by simp
qed

subsection \<open>\<^verbatim>\<open>ParseResult\<close>\<close>





























text \<open>
  Claim C3 does not hold of the code: whenever \<^verbatim>\<open>code\<close> is present, not null and not
  a number, the unchecked type assertion panics.
\<close>

lemma ParseResult_panics:
  assumes "json_Unmarshal_map L rawData = Inr resp"
    and "map_of resp ''code'' = Some v" "v \<noteq> Nil" "\<forall>f. v \<noteq> Float64 f"
  shows "ParseResult L rawData =
           Panics (''interface conversion: interface {} is '' @ type_name v @ '', not float64'')"
  using assms by (cases v) (simp_all add: ParseResult_def index_def)

text \<open>
  Claim C3 at \<^verbatim>\<open>{"code":"100"}\<close>: the line decodes, and \<^verbatim>\<open>ParseResult\<close> panics where
  the claim has it report an error.
\<close>

theorem ParseResult_panics_on_string_code:
  "json_Unmarshal_map go_json ''{\"code\":\"100\"}'' = Inr [(''code'', String ''100'')] \<and>
   ParseResult go_json ''{\"code\":\"100\"}'' =
     Panics ''interface conversion: interface {} is string, not float64''"
  by code_simp

subsection \<open>The receive loop\<close>

text \<open>
  The loop with its buffer does what the loop without buffer does, as long as the
  buffer holds the bytes read so far and is as long as the next multiple of 10240.
\<close>

lemma store_length: "start + length bs \<le> length buf \<Longrightarrow> length (store buf start bs) = length buf"
  by (simp add: store_def)

lemma store_take: "start \<le> length buf \<Longrightarrow> take (start + length bs) (store buf start bs) = take start buf @ bs"
  by (simp add: store_def)

lemma store_take_grown:
  "start \<le> length buf \<Longrightarrow> take (start + length bs) (store buf start bs @ z) = take start buf @ bs"
  by (simp add: store_def)

lemma nth_last_take:
  assumes "take n xs = ys" "0 < n" "n \<le> length xs"
  shows "xs ! (n - 1) = last ys"
proof -
  have "ys \<noteq> []" using assms by auto
  then have "last ys = ys ! (length ys - 1)" by (simp add: last_conv_nth)
  also have "length ys = n" using assms by auto
  also have "ys ! (n - 1) = xs ! (n - 1)" using assms by auto
  finally show ?thesis by simp
qed

lemma room_arith:
  fixes K s :: nat
  assumes "0 < K"
  shows "K * (s div K + 1) - s = K - s mod K"
  by (metis Nat.diff_cancel distrib_left mult_div_mod_eq nat_mult_1_right)

lemma start_le_buffer:
  fixes K s :: nat
  assumes "0 < K"
  shows "s < K * (s div K + 1)"
  by (metis assms div_less_iff_less_mult less_add_one mult.commute)

lemma div_same_block:
  fixes K s t :: nat
  assumes "0 < K" "s \<le> t" "t < K * (s div K + 1)"
  shows "t div K = s div K"
proof -
  have "s div K \<le> t div K" using assms(2) by (rule div_le_mono)
  moreover have "t div K < s div K + 1"
    using assms(1,3) by (simp add: div_less_iff_less_mult mult.commute)
  ultimately show ?thesis by simp
qed

lemma div_next_block:
  fixes K s :: nat
  assumes "0 < K"
  shows "(K * (s div K + 1)) div K = s div K + 1"
  using assms by simp

lemma room_for_buffer:
  "length content = 10240 * (start div 10240 + 1) \<Longrightarrow> length content - start = room_for start"
  unfolding room_for_def using room_arith [of 10240 start] by simp

lemma ocr_receive_refines:
  assumes "take start content = acc" "start = length acc"
    and "length content = 10240 * (start div 10240 + 1)"
  shows "ocr_receive content start es = receive_spec acc es"
  using assms
proof (induction acc es arbitrary: content start rule: receive_spec.induct)
  case (1 acc es)
  have room: "length content - start = room_for (length acc)"
    using room_for_buffer [OF 1(4)] 1(3) by simp
  have le: "start \<le> length content"
    using 1(4) start_le_buffer [of 10240 start] by simp
  show ?case
  proof (cases "Read (room_for (length acc)) es")
    case Blocked
    then show ?thesis
      using room le by (subst ocr_receive.simps, subst receive_spec.simps) simp
  next
    case (ReadFails err)
    then show ?thesis
      using room le by (subst ocr_receive.simps, subst receive_spec.simps) simp
  next
    case (ReadOk bs es')
    have pos: "0 < room_for (length acc)" by (simp add: room_for_def)
    then have bs: "bs \<noteq> []" "length bs \<le> length content - start"
      using Read_ReadOk [OF ReadOk] room by auto
    define content1 where "content1 = store content start bs"
    define start1 where "start1 = start + length bs"
    define content2 where "content2 =
      (if length content1 \<le> start1 then content1 @ replicate (1024 * 10) (CHR 0x00) else content1)"
    have l1: "length content1 = length content"
      using bs le by (simp add: content1_def store_length)
    have s1: "start1 \<le> length content" "0 < start1"
      using bs le by (auto simp: start1_def)
    have t1: "take start1 content1 = acc @ bs"
      using le 1(2) by (simp add: content1_def start1_def store_take)
    have t2: "take start1 content2 = acc @ bs"
      using t1 s1 l1 by (simp add: content2_def)
    have l2: "length content2 = 10240 * (start1 div 10240 + 1)"
    proof (cases "length content1 \<le> start1")
      case True
      then have "start1 = 10240 * (start div 10240 + 1)" using s1 l1 1(4) by simp
      then have "start1 div 10240 = start div 10240 + 1"
        using div_next_block [of 10240 start] by simp
      then show ?thesis using True 1(4) l1 \<open>start1 = 10240 * (start div 10240 + 1)\<close>
        by (simp add: content2_def)
    next
      case False
      then have "start1 < 10240 * (start div 10240 + 1)" using l1 1(4) by simp
      moreover have "start \<le> start1" by (simp add: start1_def)
      ultimately have "start1 div 10240 = start div 10240"
        using div_same_block [of 10240 start start1] by simp
      then show ?thesis using False 1(4) l1 by (simp add: content2_def)
    qed
    have "start1 \<le> length content2"
      using l2 start_le_buffer [of 10240 start1] by simp
    then have n2: "content2 ! (start1 - 1) = last (acc @ bs)"
      using nth_last_take [OF t2 s1(2)] by simp
    have unfold: "ocr_receive content start es =
        (if content2 ! (start1 - 1) = newline then Returns ((take start1 content2, None), es')
         else ocr_receive content2 start1 es')"
      using ReadOk room le s1(2)
      by (subst ocr_receive.simps)
         (simp add: Let_def content1_def [symmetric] start1_def [symmetric] content2_def [symmetric])
    show ?thesis
    proof (cases "last (acc @ bs) = newline")
      case True
      then show ?thesis
        using unfold n2 t2 ReadOk by (subst receive_spec.simps) simp
    next
      case False
      have "ocr_receive content2 start1 es' = receive_spec (acc @ bs) es'"
        using 1(1) [OF ReadOk False t2 _ l2] 1(3) by (simp add: start1_def)
      then show ?thesis
        using unfold n2 False ReadOk by (subst receive_spec.simps) simp
    qed
  qed
qed

lemma Read_pending: "Read room es = ReadOk bs es' \<Longrightarrow> pending es = bs @ pending es'"
  by (cases es rule: pending.cases) (auto simp: Read_def split: if_splits)

lemma receive_spec_line:
  "receive_spec acc es = Returns ((line, err), es') \<Longrightarrow>
     (err = None \<longrightarrow> line \<noteq> [] \<and> last line = newline \<and> acc @ pending es = line @ pending es') \<and>
     (err \<noteq> None \<longrightarrow> line = [])"
proof (induction acc es rule: receive_spec.induct)
  case (1 acc es)
  show ?case
  proof (cases "Read (room_for (length acc)) es")
    case Blocked
    then show ?thesis using 1(2) by (subst (asm) receive_spec.simps) simp
  next
    case (ReadFails e)
    then show ?thesis using 1(2) by (subst (asm) receive_spec.simps) auto
  next
    case (ReadOk bs es1)
    have "0 < room_for (length acc)" by (simp add: room_for_def)
    then have bs: "bs \<noteq> []" using Read_ReadOk [OF ReadOk] by auto
    note p = Read_pending [OF ReadOk]
    show ?thesis
    proof (cases "last (acc @ bs) = newline")
      case True
      then show ?thesis
        using 1(2) ReadOk bs p by (subst (asm) receive_spec.simps) auto
    next
      case False
      then have "receive_spec (acc @ bs) es1 = Returns ((line, err), es')"
        using 1(2) ReadOk by (subst (asm) receive_spec.simps) simp
      from 1(1) [OF ReadOk False this] show ?thesis
        using p by simp
    qed
  qed
qed

lemma Read_fails_again:
  "Read room es = ReadFails e \<Longrightarrow> 0 < room \<Longrightarrow> Read 1 es = ReadFails e"
  by (auto simp: Read_def split: list.splits read_event.splits if_splits)

lemma receive_spec_error:
  "receive_spec acc es = Returns ((line, Some e), es') \<Longrightarrow> line = [] \<and> Read 1 es' = ReadFails e"
proof (induction acc es rule: receive_spec.induct)
  case (1 acc es)
  have pos: "0 < room_for (length acc)" by (simp add: room_for_def)
  show ?case
  proof (cases "Read (room_for (length acc)) es")
    case Blocked
    then show ?thesis using 1(2) by (subst (asm) receive_spec.simps) simp
  next
    case (ReadFails e0)
    then have "line = []" "e = e0" "es' = es"
      using 1(2) by (subst (asm) receive_spec.simps, simp)+
    then show ?thesis using Read_fails_again [OF ReadFails pos] by simp
  next
    case (ReadOk bs es1)
    show ?thesis
    proof (cases "last (acc @ bs) = newline")
      case True
      then show ?thesis
        using 1(2) ReadOk by (subst (asm) receive_spec.simps) simp
    next
      case False
      then have "receive_spec (acc @ bs) es1 = Returns ((line, Some e), es')"
        using 1(2) ReadOk by (subst (asm) receive_spec.simps) simp
      from 1(1) [OF ReadOk False this] show ?thesis .
    qed
  qed
qed

text \<open>
  Claim C7. The receive loop of \<^verbatim>\<open>ocr\<close> is the loop of the specification: it
  accumulates what the reads return, short reads included, it ends as soon as the last
  byte read is a newline, and the first failing read ends it. When it returns a line,
  the line ends in a newline and is what the stream has delivered up to there, no byte
  lost, none overwritten and none added, whatever the number of times the buffer has
  grown. When it returns an error, it returns no bytes, and the error is the one of the
  read that failed, which is still the next event of the stream.
\<close>

theorem ocr_receive_accumulates:
  "ocr_loop es = receive_spec [] es \<and>
   (\<forall>line es'.
      ocr_loop es = Returns ((line, None), es') \<longrightarrow>
        line \<noteq> [] \<and> last line = newline \<and> pending es = line @ pending es') \<and>
   (\<forall>line e es'.
      ocr_loop es = Returns ((line, Some e), es') \<longrightarrow> line = [] \<and> Read 1 es' = ReadFails e)"
proof -
  have r: "ocr_loop es = receive_spec [] es"
    unfolding ocr_loop_def by (rule ocr_receive_refines) simp_all
  show ?thesis
    unfolding r using receive_spec_line [of "[]" es] receive_spec_error [of "[]" es] by simp
qed

text \<open>
  Three streams: a line in two chunks, followed by a byte that stays in the pipe; a
  line of 10243 bytes, for which the buffer grows; a stream that ends before the
  newline.
\<close>

lemma newline_simps: "CHR ''}'' \<noteq> newline" "CHR ''a'' \<noteq> newline" "CHR ''0'' \<noteq> newline"
  by (simp_all add: newline_def)
theorem ocr_receive_accumulates_witness:
  "ocr_loop
     [Bytes ''{\"code\":10'', Bytes (''1}'' @ [newline]), Bytes ''x''] =
     Returns ((''{\"code\":101}'' @ [newline], None), [Bytes ''x'']) \<and>
   ocr_loop
     [Bytes (replicate 10240 (CHR ''a'')), Bytes (''a}'' @ [newline])] =
     Returns ((replicate 10240 (CHR ''a'') @ ''a}'' @ [newline], None), []) \<and>
   ocr_loop [Bytes ''{\"code\":10'', ReadErr io_EOF] =
     Returns (([], Some io_EOF), [ReadErr io_EOF]) \<and>
   Read 1 [ReadErr io_EOF] = ReadFails io_EOF"
proof -
  have a: "receive_spec [] [Bytes ''{\"code\":10'', Bytes (''1}'' @ [newline]), Bytes ''x''] =
      Returns ((''{\"code\":101}'' @ [newline], None), [Bytes ''x''])"
    by (simp add: receive_spec.simps Read_def room_for_def newline_simps)
  have b: "receive_spec [] [Bytes (replicate 10240 (CHR ''a'')), Bytes (''a}'' @ [newline])] =
      Returns ((replicate 10240 (CHR ''a'') @ ''a}'' @ [newline], None), [])"
    by (simp add: receive_spec.simps Read_def room_for_def newline_simps)
  have c: "receive_spec [] [Bytes ''{\"code\":10'', ReadErr io_EOF] =
      Returns (([], Some io_EOF), [ReadErr io_EOF])"
    by (simp add: receive_spec.simps Read_def room_for_def newline_simps)
  show ?thesis
    using ocr_receive_accumulates [of "[Bytes ''{\"code\":10'', Bytes (''1}'' @ [newline]), Bytes ''x'']"]
      ocr_receive_accumulates [of "[Bytes (replicate 10240 (CHR ''a'')), Bytes (''a}'' @ [newline])]"]
      ocr_receive_accumulates [of "[Bytes ''{\"code\":10'', ReadErr io_EOF]"]
    unfolding a b c by blast
qed

subsection \<open>The handshake\<close>

lemma init_read_Nil: "start \<le> length buf \<Longrightarrow> start < length buf \<Longrightarrow> init_read buf start [] = Hangs"
  by (subst init_read.simps) (simp add: Read_def)

lemma init_read_ReadErr:
  "start < length buf \<Longrightarrow>
   init_read buf start (ReadErr err # es) = Returns (ReadFailed err (take start buf), ReadErr err # es)"
  by (subst init_read.simps) (simp add: Read_def)

lemma init_read_empty:
  "start < length buf \<Longrightarrow>
   init_read buf start (Bytes [] # es) = Returns (ReadFailed io_EOF (take start buf), Bytes [] # es)"
  by (subst init_read.simps) (simp add: Read_def)

lemma init_read_full:
  assumes "start < length buf" "c \<noteq> []" "length buf \<le> start + length c"
  shows "init_read buf start (Bytes c # es) =
     Returns (TooLong, if length buf - start < length c
                       then Bytes (drop (length buf - start) c) # es else es)"
  using assms by (subst init_read.simps) (simp add: Read_def store_def Let_def)

lemma init_read_chunk:
  assumes "start < length buf" "c \<noteq> []" "start + length c < length buf"
  shows "init_read buf start (Bytes c # es) =
     (if Contains (take start buf @ c) marker then Returns (Found, es)
      else init_read (store buf start c) (start + length c) es)"
proof -
  have r: "Read (length buf - start) (Bytes c # es) = ReadOk c es"
    using assms by (simp add: Read_def)
  have l: "length (store buf start c) = length buf"
    using assms by (simp add: store_length)
  have t: "take (start + length c) (store buf start c) = take start buf @ c"
    using assms by (simp add: store_take)
  show ?thesis
    using assms by (subst init_read.simps) (simp add: r l t Let_def)
qed

lemma delivered_Cons: "delivered (Suc k) (e # es) = chunk e @ delivered k es"
  by (simp add: delivered_def)

lemma delivered_0: "delivered 0 es = []"
  by (simp add: delivered_def)

lemma bex_upt: "(\<exists>k\<in>set [0..<m]. P k) \<longleftrightarrow> (\<exists>k<m. P k)"
  unfolding set_upt by auto

lemma ex_index_Suc:
  "(\<exists>k\<in>set [0..<Suc (Suc n)]. P k) \<longleftrightarrow> P 0 \<or> (\<exists>k\<in>set [0..<Suc n]. P (Suc k))"
  unfolding bex_upt by (rule Ex_less_Suc2)

lemma init_read_found:
  assumes "take start buf = acc" "start = length acc" "length buf = 4096" "start < 4096"
    and "\<not> Contains acc marker"
  shows "(\<exists>es'. init_read buf start es = Returns (Found, es')) \<longleftrightarrow>
         (\<exists>k\<in>set [0..<Suc (length es)].
            list_all is_data (take k es) \<and> length (acc @ delivered k es) < 4096 \<and>
            Contains (acc @ delivered k es) marker)"
  using assms
proof (induction es arbitrary: buf start acc)
  case Nil
  then show ?case by (simp add: init_read_Nil delivered_0)
next
  case (Cons e es)
  let ?P = "\<lambda>k. list_all is_data (take k (e # es)) \<and> length (acc @ delivered k (e # es)) < 4096 \<and>
            Contains (acc @ delivered k (e # es)) marker"
  have split: "(\<exists>k\<in>set [0..<Suc (length (e # es))]. ?P k) \<longleftrightarrow>
      (\<exists>k\<in>set [0..<Suc (length es)]. ?P (Suc k))"
    using ex_index_Suc [of "length es" ?P] Cons.prems(5) by (simp add: delivered_0)
  have lt: "start < length buf" using Cons.prems by simp
  show ?case
  proof (cases e)
    case (ReadErr err)
    then show ?thesis unfolding split using lt by (simp add: init_read_ReadErr)
  next
    case (Bytes c)
    show ?thesis
    proof (cases "c = []")
      case True
      then show ?thesis unfolding split using lt Bytes by (simp add: init_read_empty)
    next
      case False
      show ?thesis
      proof (cases "length buf \<le> start + length c")
        case True
        then have "init_read buf start (e # es) =
            Returns (TooLong, if length buf - start < length c
                       then Bytes (drop (length buf - start) c) # es else es)"
          using init_read_full [OF lt False] Bytes by simp
        moreover have "\<not> (\<exists>k\<in>set [0..<Suc (length es)]. ?P (Suc k))"
          using True Cons.prems Bytes by (auto simp: delivered_Cons)
        ultimately show ?thesis unfolding split by simp
      next
        case small: False
        then have step: "init_read buf start (e # es) =
            (if Contains (acc @ c) marker then Returns (Found, es)
             else init_read (store buf start c) (start + length c) es)"
          using init_read_chunk [OF lt False] Bytes Cons.prems(1) by simp
        show ?thesis
        proof (cases "Contains (acc @ c) marker")
          case True
          have "?P (Suc 0)"
            using True False small Bytes Cons.prems by (simp add: delivered_Cons delivered_0)
          then have "\<exists>k\<in>set [0..<Suc (length es)]. ?P (Suc k)"
            unfolding bex_upt by blast
          then show ?thesis unfolding split using step True by simp
        next
          case nc: False
          have tk: "take (start + length c) (store buf start c) = acc @ c"
            using store_take [of start buf c] Cons.prems by simp
          have ln: "length (store buf start c) = 4096"
            using store_length [of start c buf] small Cons.prems by simp
          have ih: "(\<exists>es'. init_read (store buf start c) (start + length c) es = Returns (Found, es')) \<longleftrightarrow>
              (\<exists>k\<in>set [0..<Suc (length es)].
                 list_all is_data (take k es) \<and> length ((acc @ c) @ delivered k es) < 4096 \<and>
                 Contains ((acc @ c) @ delivered k es) marker)"
            using Cons.IH [OF tk _ ln _ nc] small Cons.prems by simp
          show ?thesis
            unfolding split using step nc ih False Bytes by (simp add: delivered_Cons)
        qed
      qed
    qed
  qed
qed


lemma ball_upt: "(\<forall>k\<in>set [0..<m]. P k) \<longleftrightarrow> (\<forall>k<m. P k)"
  unfolding set_upt by auto

lemma all_index_Suc:
  "(\<forall>k\<in>set [0..<Suc (Suc n)]. P k) \<longleftrightarrow> P 0 \<and> (\<forall>k\<in>set [0..<Suc n]. P (Suc k))"
  unfolding ball_upt by (rule All_less_Suc2)

lemma init_read_hangs:
  assumes "take start buf = acc" "start = length acc" "length buf = 4096" "start < 4096"
    and "\<not> Contains acc marker"
  shows "init_read buf start es = Hangs \<longleftrightarrow>
         list_all is_data es \<and> length (acc @ delivered (length es) es) < 4096 \<and>
         (\<forall>k\<in>set [0..<Suc (length es)]. \<not> Contains (acc @ delivered k es) marker)"
  using assms
proof (induction es arbitrary: buf start acc)
  case Nil
  then show ?case by (simp add: init_read_Nil delivered_0)
next
  case (Cons e es)
  let ?Q = "\<lambda>k. \<not> Contains (acc @ delivered k (e # es)) marker"
  have split: "(\<forall>k\<in>set [0..<Suc (length (e # es))]. ?Q k) \<longleftrightarrow>
      (\<forall>k\<in>set [0..<Suc (length es)]. ?Q (Suc k))"
    using all_index_Suc [of "length es" ?Q] Cons.prems(5) by (simp add: delivered_0)
  have lt: "start < length buf" using Cons.prems by simp
  show ?case
  proof (cases e)
    case (ReadErr err)
    then show ?thesis using lt by (simp add: init_read_ReadErr)
  next
    case (Bytes c)
    show ?thesis
    proof (cases "c = []")
      case True
      then show ?thesis using lt Bytes by (simp add: init_read_empty)
    next
      case False
      show ?thesis
      proof (cases "length buf \<le> start + length c")
        case True
        then have "init_read buf start (e # es) =
            Returns (TooLong, if length buf - start < length c
                       then Bytes (drop (length buf - start) c) # es else es)"
          using init_read_full [OF lt False] Bytes by simp
        moreover have "\<not> length (acc @ delivered (length (e # es)) (e # es)) < 4096"
          using True Cons.prems Bytes by (simp add: delivered_Cons)
        ultimately show ?thesis by simp
      next
        case small: False
        then have step: "init_read buf start (e # es) =
            (if Contains (acc @ c) marker then Returns (Found, es)
             else init_read (store buf start c) (start + length c) es)"
          using init_read_chunk [OF lt False] Bytes Cons.prems(1) by simp
        show ?thesis
        proof (cases "Contains (acc @ c) marker")
          case True
          have "\<not> ?Q (Suc 0)"
            using True Bytes by (simp add: delivered_Cons delivered_0)
          then have "\<not> (\<forall>k\<in>set [0..<Suc (length es)]. ?Q (Suc k))"
            unfolding ball_upt by blast
          then show ?thesis unfolding split using step True by simp
        next
          case nc: False
          have tk: "take (start + length c) (store buf start c) = acc @ c"
            using store_take [of start buf c] Cons.prems by simp
          have ln: "length (store buf start c) = 4096"
            using store_length [of start c buf] small Cons.prems by simp
          have ih: "init_read (store buf start c) (start + length c) es = Hangs \<longleftrightarrow>
              list_all is_data es \<and> length ((acc @ c) @ delivered (length es) es) < 4096 \<and>
              (\<forall>k\<in>set [0..<Suc (length es)]. \<not> Contains ((acc @ c) @ delivered k es) marker)"
            using Cons.IH [OF tk _ ln _ nc] small Cons.prems by simp
          show ?thesis
            unfolding split using step nc ih False Bytes by (simp add: delivered_Cons)
        qed
      qed
    qed
  qed
qed

lemma init_read_no_panic:
  "start \<le> length buf \<Longrightarrow> init_read buf start es \<noteq> Panics m"
proof (induction buf start es rule: init_read.induct)
  case (1 buf start es)
  show ?case
  proof (cases "Read (length buf - start) es")
    case Blocked
    then show ?thesis using 1(2) by (subst init_read.simps) simp
  next
    case (ReadFails err)
    then show ?thesis using 1(2) by (subst init_read.simps) simp
  next
    case (ReadOk bs es')
    have len: "length bs \<le> length buf - start"
      using Read_ReadOk [OF ReadOk] by auto
    then have l: "length (store buf start bs) = length buf"
      using 1(2) by (simp add: store_length)
    show ?thesis
    proof (cases "length (store buf start bs) \<le> start + length bs \<or>
        Contains (take (start + length bs) (store buf start bs)) marker")
      case True
      then show ?thesis using ReadOk 1(2) by (subst init_read.simps) (auto simp: Let_def)
    next
      case False
      then have "init_read (store buf start bs) (start + length bs) es' \<noteq> Panics m"
        using 1(1) [OF _ ReadOk refl refl] 1(2) l by simp
      then show ?thesis using ReadOk 1(2) False by (subst init_read.simps) (simp add: Let_def)
    qed
  qed
qed

lemma Contains_Nil_marker: "\<not> Contains [] marker"
  by (simp add: Contains_def marker_def)

lemma init_read_result:
  "((\<exists>es'. initPpocr_loop es = Returns (Found, es')) \<longleftrightarrow> marker_in_time es) \<and>
   (initPpocr_loop es = Hangs \<longleftrightarrow> stalls es) \<and>
   (\<forall>m. initPpocr_loop es \<noteq> Panics m)"
  using init_read_found [of 0 "replicate 4096 (CHR 0x00)" "[]" es]
    init_read_hangs [of 0 "replicate 4096 (CHR 0x00)" "[]" es]
    init_read_no_panic [of 0 "replicate 4096 (CHR 0x00)" es] Contains_Nil_marker
  by (simp add: marker_in_time_def stalls_def initPpocr_loop_def)


lemma init_read_refines:
  assumes "take start buf = acc" "start = length acc" "length buf = 4096" "start < 4096"
  shows "init_read buf start es = handshake_spec acc es"
  using assms
proof (induction es arbitrary: buf start acc)
  case Nil
  then show ?case by (simp add: init_read_Nil)
next
  case (Cons e es)
  have lt: "start < length buf" using Cons.prems by simp
  show ?case
  proof (cases e)
    case (ReadErr err)
    then show ?thesis using lt Cons.prems by (simp add: init_read_ReadErr)
  next
    case (Bytes c)
    show ?thesis
    proof (cases "c = []")
      case True
      then show ?thesis using lt Bytes Cons.prems by (simp add: init_read_empty)
    next
      case False
      show ?thesis
      proof (cases "length buf \<le> start + length c")
        case True
        then show ?thesis
          using init_read_full [OF lt False True] Bytes False Cons.prems by simp
      next
        case small: False
        have tk: "take (start + length c) (store buf start c) = acc @ c"
          using store_take [of start buf c] Cons.prems by simp
        have ln: "length (store buf start c) = 4096"
          using store_length [of start c buf] small Cons.prems by simp
        have "init_read (store buf start c) (start + length c) es = handshake_spec (acc @ c) es"
          using Cons.IH [OF tk _ ln] small Cons.prems by simp
        then show ?thesis
          using init_read_chunk [OF lt False] small Bytes False Cons.prems by simp
      qed
    qed
  qed
qed

lemma initPpocr_loop_code [code]: "initPpocr_loop rc = handshake_spec [] rc"
  unfolding initPpocr_loop_def by (rule init_read_refines) simp_all

lemma ocr_loop_code [code]: "ocr_loop rc = receive_spec [] rc"
  unfolding ocr_loop_def by (rule ocr_receive_refines) simp_all

lemma init_error_None:
  "init_error ierr h t = None \<longleftrightarrow> h = Found \<and> ierr = None"
  by (cases h) (simp_all add: init_error_def split: option.splits)

lemma init_error_failed:
  "h \<noteq> Found \<Longrightarrow> \<exists>m. init_error ierr h t = Some (GoError m) \<and> prefix ''OCR init failed'' m"
  by (cases h) (auto simp: init_error_def split: option.splits)
text \<open>
  Claim C8, as the code has it. Let the worker start. \<^verbatim>\<open>initPpocr\<close> succeeds exactly
  when the marker is read in time, in fewer than 4096 bytes, and no error of
  \<^verbatim>\<open>cmd.Wait\<close> has been stored by then; it never returns exactly when the stream
  stalls; in every other case, the stream ending or failing first or 4096 bytes being
  read, the marker in them or not, it fails with an error \<^verbatim>\<open>OCR init failed\<close>.
\<close>

theorem initPpocr_handshake:
  assumes "exec w path (CmdString a) (length (launched w)) = Starts sc"
  shows "(fst (initPpocr w p path a) = Returns None \<longleftrightarrow>
            marker_in_time (out_events sc) \<and> (ended sc \<longrightarrow> wait_err sc = None)) \<and>
         (fst (initPpocr w p path a) = Hangs \<longleftrightarrow> stalls (out_events sc)) \<and>
         (\<not> marker_in_time (out_events sc) \<and> \<not> stalls (out_events sc) \<longrightarrow>
            (\<exists>m. fst (initPpocr w p path a) = Returns (Some (GoError m)) \<and>
                 prefix ''OCR init failed'' m))"
proof -
  let ?r = "initPpocr_loop (out_events sc)"
  let ?ierr = "if ended sc then wait_err sc else None"
  note R = init_read_result [of "out_events sc"]
  have f: "fst (initPpocr w p path a) =
      (case ?r of Panics m \<Rightarrow> Panics m | Hangs \<Rightarrow> Hangs
       | Returns (h, es') \<Rightarrow> Returns (init_error ?ierr h (err_text sc)))"
    using assms by (simp add: initPpocr_def Let_def split: outcome.splits prod.splits)
  show ?thesis
  proof (cases ?r)
    case (Panics m)
    then show ?thesis using R by simp
  next
    case Hangs
    then have "stalls (out_events sc)" "\<not> marker_in_time (out_events sc)" using R by auto
    then show ?thesis using f Hangs by simp
  next
    case (Returns x)
    obtain h es' where x: "x = (h, es')" by (cases x)
    have ns: "\<not> stalls (out_events sc)" using R Returns by simp
    have m: "marker_in_time (out_events sc) \<longleftrightarrow> h = Found" using R Returns x by auto
    have r: "fst (initPpocr w p path a) = Returns (init_error ?ierr h (err_text sc))"
      using f Returns x by simp
    show ?thesis
    proof (cases "h = Found")
      case True
      then show ?thesis using r ns m by (auto simp: init_error_def)
    next
      case False
      then show ?thesis
        using r ns m init_error_failed [OF False, of ?ierr "err_text sc"] init_error_None [of ?ierr h "err_text sc"]
        by auto
    qed
  qed
qed

text \<open>
  A worker that completes the handshake in three chunks, and one whose stream ends
  before the marker.
\<close>

theorem initPpocr_handshake_witness:
  "fst (initPpocr (world_of (\<lambda>n. Starts ready_script)) ready_Ppocr worker_path no_args) = Returns None \<and>
   marker_in_time (out_events ready_script) \<and> \<not> ended ready_script \<and>
   fst (initPpocr (world_of (\<lambda>n. Starts \<lparr>out_events = [Bytes ''starting'', ReadErr io_EOF],
          in_faults = [], wait_err = None, ended = True, err_text = ''no model''\<rparr>))
        ready_Ppocr worker_path no_args) =
     Returns (Some (GoError ''OCR init failed, error: EOF, output: starting no model''))"
proof -
  let ?s2 = "\<lparr>out_events = [Bytes ''starting'', ReadErr io_EOF],
          in_faults = [], wait_err = None, ended = True, err_text = ''no model''\<rparr>"
  have e: "exec (world_of (\<lambda>n. Starts ready_script)) worker_path (CmdString no_args)
      (length (launched (world_of (\<lambda>n. Starts ready_script)))) = Starts ready_script"
    by (simp add: world_of_def)
  have m: "marker_in_time (out_events ready_script)" by code_simp
  have n: "\<not> ended ready_script" by (simp add: ready_script_def)
  have a: "fst (initPpocr (world_of (\<lambda>n. Starts ready_script)) ready_Ppocr worker_path no_args) = Returns None"
    using initPpocr_handshake [OF e, of ready_Ppocr] m n by simp
  have e2: "exec (world_of (\<lambda>n. Starts ?s2)) worker_path (CmdString no_args)
      (length (launched (world_of (\<lambda>n. Starts ?s2)))) = Starts ?s2"
    by (simp add: world_of_def)
  have "\<not> marker_in_time (out_events ?s2)" "\<not> stalls (out_events ?s2)" by code_simp+
  then obtain msg where
    "fst (initPpocr (world_of (\<lambda>n. Starts ?s2)) ready_Ppocr worker_path no_args) = Returns (Some (GoError msg))"
    using initPpocr_handshake [OF e2, of ready_Ppocr] by blast
  moreover have "fst (initPpocr (world_of (\<lambda>n. Starts ?s2)) ready_Ppocr worker_path no_args) =
     Returns (Some (GoError ''OCR init failed, error: EOF, output: starting no model''))"
    by code_simp
  ultimately show ?thesis using a m n by simp
qed
text \<open>
  Claim C8 as stated fails twice. A worker whose marker is in the first 4096 bytes,
  which arrive in one chunk and fill the buffer: the handshake fails with
  \<^verbatim>\<open>output too long\<close>. A worker that has exited with an error when its marker is
  read: \<^verbatim>\<open>initPpocr\<close> returns that error.
\<close>

theorem initPpocr_handshake_counterexample:
  "Contains (take 4096 (pending (out_events full_script))) marker \<and>
   fst (initPpocr (world_of (\<lambda>n. Starts full_script)) ready_Ppocr worker_path no_args) =
     Returns (Some (GoError ''OCR init failed: output too long'')) \<and>
   Contains (take 4096 (pending (out_events crashed_script))) marker \<and>
   fst (initPpocr (world_of (\<lambda>n. Starts crashed_script)) ready_Ppocr worker_path no_args) =
     Returns (Some (GoError ''exit status 1''))"
proof -
  have c1: "Contains (take 4096 (pending (out_events full_script))) marker"
    by (simp add: full_script_def Contains_def marker_def)
  have r: "initPpocr_loop [Bytes (marker @ replicate 4077 (CHR ''.''))] = Returns (TooLong, [])"
    by (simp add: initPpocr_loop_code marker_def)
  have f: "fst (initPpocr (world_of (\<lambda>n. Starts full_script)) ready_Ppocr worker_path no_args) =
     Returns (Some (GoError ''OCR init failed: output too long''))"
    by (simp add: initPpocr_def world_of_def full_script_def Let_def r init_error_def)
  have c2: "Contains (take 4096 (pending (out_events crashed_script))) marker"
    by code_simp
  have g: "fst (initPpocr (world_of (\<lambda>n. Starts crashed_script)) ready_Ppocr worker_path no_args) =
     Returns (Some (GoError ''exit status 1''))"
    by code_simp
  show ?thesis using c1 f c2 g by simp
qed

subsection \<open>Starting the worker\<close>

text \<open>
  Claim C6. For a path that does not exist or is a directory, \<^verbatim>\<open>NewPpocr\<close> returns
  no instance and an error, and leaves the world as it is: nothing is launched.
\<close>

theorem NewPpocr_missing_executable:
  "os_Stat w path = Inl ENOENT \<or> os_Stat w path = Inr True \<Longrightarrow>
   NewPpocr w path a =
     (Returns (None, Some (GoError (''executable file '' @ path @ '' not found''))), w)"
  by (auto simp: NewPpocr_def fileIsExist_def os_IsExist_def)
text \<open>
  A path that does not exist and a directory, in a world without launches.
\<close>

theorem NewPpocr_missing_executable_witness:
  "os_Stat faulty_world ''/nowhere'' = Inl ENOENT \<and>
   NewPpocr faulty_world ''/nowhere'' no_args =
     (Returns (None, Some (GoError ''executable file /nowhere not found'')), faulty_world) \<and>
   os_Stat faulty_world ''/opt/ocr'' = Inr True \<and>
   NewPpocr faulty_world ''/opt/ocr'' no_args =
     (Returns (None, Some (GoError ''executable file /opt/ocr not found'')), faulty_world) \<and>
   launched faulty_world = []"
proof -
  have a: "os_Stat faulty_world ''/nowhere'' = Inl ENOENT"
    by (simp add: faulty_world_def world_of_def files_def worker_path_def)
  have b: "os_Stat faulty_world ''/opt/ocr'' = Inr True"
    by (simp add: faulty_world_def world_of_def files_def worker_path_def)
  have c: "launched faulty_world = []"
    by (simp add: faulty_world_def world_of_def)
  show ?thesis
    using NewPpocr_missing_executable [of faulty_world "''/nowhere''" no_args]
      NewPpocr_missing_executable [of faulty_world "''/opt/ocr''" no_args] a b c
    by simp
qed
subsection \<open>The request line\<close>

lemma first_write:
  assumes "\<not> closed f" "list_all (\<lambda>x. x = None) (take 2 (faults f))"
  shows "Write_pipe f b = (None, f\<lparr>bytes_written := bytes_written f @ b, faults := drop 1 (faults f)\<rparr>)"
  using assms by (cases "faults f") (auto simp: Write_pipe_def)

lemma second_write:
  assumes "\<not> closed f" "list_all (\<lambda>x. x = None) (take 2 (faults f))"
  shows "Write_pipe (f\<lparr>bytes_written := bytes_written f @ b, faults := drop 1 (faults f)\<rparr>) c =
           (None, f\<lparr>bytes_written := bytes_written f @ b @ c, faults := drop 2 (faults f)\<rparr>)"
proof (cases "faults f")
  case Nil
  then show ?thesis using assms by (simp add: Write_pipe_def)
next
  case (Cons x xs)
  then show ?thesis using assms by (cases xs) (auto simp: Write_pipe_def)
qed

lemma ocr_writes:
  assumes "cmdStdin p = Some f" "\<not> closed f" "list_all (\<lambda>x. x = None) (take 2 (faults f))"
  shows "cmdStdin (snd (ocr p dataJson)) =
     Some (f\<lparr>bytes_written := bytes_written f @ dataJson @ [newline], faults := drop 2 (faults f)\<rparr>)"
  using assms first_write [OF assms(2,3), of dataJson]
    second_write [OF assms(2,3), of dataJson "[newline]"]
  by (simp add: ocr_def split: option.splits outcome.splits prod.splits)

lemma ocr_locked_writes:
  assumes "cmdStdin p = Some f" "\<not> closed f" "list_all (\<lambda>x. x = None) (take 2 (faults f))"
  shows "cmdStdin (snd (ocr_locked p dataJson)) =
     Some (f\<lparr>bytes_written := bytes_written f @ dataJson @ [newline], faults := drop 2 (faults f)\<rparr>)"
  using ocr_writes [OF assms, of dataJson]
  by (cases "ocr p dataJson") (auto simp: ocr_locked_def split: outcome.splits)

definition sent :: "wpipe \<Rightarrow> string \<Rightarrow> wpipe option" where
  "sent f line = Some (f\<lparr>bytes_written := bytes_written f @ line @ [newline], faults := drop 2 (faults f)\<rparr>)"
text \<open>
  Claim C10, as the code has it. On an instance that is not closed and whose input
  pipe takes two writes, \<^verbatim>\<open>OcrFile\<close> with a non-empty path writes the object with the
  field \<^verbatim>\<open>image_path\<close> alone, \<^verbatim>\<open>Ocr\<close> with a non-empty image the object with the field
  \<^verbatim>\<open>image_base64\<close> alone, each followed by one newline; with an empty path or an empty
  image both write the empty object and a newline.
\<close>

theorem request_line:
  assumes "\<not> ppLock p" "internalErr p = None" "cmdStdin p = Some f" "\<not> closed f"
    and "list_all (\<lambda>x. x = None) (take 2 (faults f))"
  shows "(imagePath \<noteq> [] \<longrightarrow>
            cmdStdin (snd (OcrFile L p imagePath)) =
              sent f (''{\"image_path\":'' @ json_String L imagePath @ ''}'')) \<and>
         (img \<noteq> [] \<longrightarrow>
            cmdStdin (snd (Ocr L p img)) =
              sent f (''{\"image_base64\":\"'' @ base64 img @ ''\"}'')) \<and>
         cmdStdin (snd (OcrFile L p [])) = sent f ''{}'' \<and>
         cmdStdin (snd (Ocr L p [])) = sent f ''{}''"
  using assms(1,2) ocr_locked_writes [OF assms(3,4,5)]
  by (simp add: OcrFile_def Ocr_def json_Marshal_imageData_def sent_def)
text \<open>
  A file name and an image of eleven bytes.
\<close>

theorem request_line_witness:
  "cmdStdin (snd (OcrFile go_json ready_Ppocr ''x.png'')) =
     Some \<lparr>bytes_written = ''{\"image_path\":\"x.png\"}'' @ [newline], faults = [], closed = False\<rparr> \<and>
   cmdStdin (snd (Ocr go_json ready_Ppocr ''hello world'')) =
     Some \<lparr>bytes_written = ''{\"image_base64\":\"aGVsbG8gd29ybGQ=\"}'' @ [newline], faults = [], closed = False\<rparr>"
proof -
  let ?f = "\<lparr>bytes_written = [], faults = [], closed = False\<rparr>"
  have h: "\<not> ppLock ready_Ppocr" "internalErr ready_Ppocr = None" "cmdStdin ready_Ppocr = Some ?f"
    "\<not> closed ?f" "list_all (\<lambda>x. x = None) (take 2 (faults ?f))"
    by (simp_all add: ready_Ppocr_def)
  have j: "json_String go_json ''x.png'' = ''\"x.png\"''" by code_simp
  have b: "base64 ''hello world'' = ''aGVsbG8gd29ybGQ=''" by code_simp
  have n: "''x.png'' \<noteq> []" "''hello world'' \<noteq> []" by simp_all
  from request_line [OF h, of "''x.png''" go_json "''hello world''"] n
  have "cmdStdin (snd (OcrFile go_json ready_Ppocr ''x.png'')) =
          sent ?f (''{\"image_path\":'' @ json_String go_json ''x.png'' @ ''}'')"
    and "cmdStdin (snd (Ocr go_json ready_Ppocr ''hello world'')) =
          sent ?f (''{\"image_base64\":\"'' @ base64 ''hello world'' @ ''\"}'')"
    by blast+
  then show ?thesis unfolding j b sent_def by simp
qed
text \<open>
  Claim C10 as stated fails on the empty path and on the empty image: the object
  written has neither field.
\<close>

theorem request_line_counterexample:
  "cmdStdin (snd (OcrFile go_json ready_Ppocr [])) =
     Some \<lparr>bytes_written = ''{}'' @ [newline], faults = [], closed = False\<rparr> \<and>
   cmdStdin (snd (Ocr go_json ready_Ppocr [])) =
     Some \<lparr>bytes_written = ''{}'' @ [newline], faults = [], closed = False\<rparr>"
proof -
  let ?f = "\<lparr>bytes_written = [], faults = [], closed = False\<rparr>"
  have h: "cmdStdin ready_Ppocr = Some ?f" "\<not> closed ?f"
    "list_all (\<lambda>x. x = None) (take 2 (faults ?f))"
    by (simp_all add: ready_Ppocr_def)
  have s: "\<not> ppLock ready_Ppocr" "internalErr ready_Ppocr = None"
    by (simp_all add: ready_Ppocr_def)
  show ?thesis
    using ocr_locked_writes [OF h, of "''{}''"] s
    by (simp add: OcrFile_def Ocr_def json_Marshal_imageData_def)
qed

subsection \<open>Shutdown and restart\<close>

text \<open>
  What holds of the error that is kept: a request on an instance with an error
  returns it, \<^verbatim>\<open>OcrFile\<close> when the mutex is free; \<^verbatim>\<open>Close\<close> that returns leaves an
  error and the signal closed, and a second \<^verbatim>\<open>Close\<close> then returns the error of a
  closed instance; a restart that returns leaves the result of \<^verbatim>\<open>initPpocr\<close>.
\<close>

lemma OcrFile_fails_fast:
  "\<not> ppLock p \<Longrightarrow> internalErr p = Some err \<Longrightarrow> OcrFile L p imagePath = (Returns ([], Some err), p)"
  by (simp add: OcrFile_def json_Marshal_imageData_def)

lemma Ocr_fails_fast:
  "internalErr p = Some err \<Longrightarrow> Ocr L p img = (Returns ([], Some err), p)"
  by (simp add: Ocr_def)

lemma close_keeps_error:
  "close p = (r, p') \<Longrightarrow> internalErr p \<noteq> None \<Longrightarrow> internalErr p' \<noteq> None"
  by (auto simp: close_def split: option.splits pstate.splits)

lemma close_keeps_signal:
  "close p = (r, p') \<Longrightarrow> restartExitChan_closed p' = restartExitChan_closed p \<and> ppLock p' = ppLock p"
  by (auto simp: close_def split: option.splits pstate.splits)

lemma Close_records_error:
  assumes "Close p = (Returns r, p')" "\<not> restartExitChan_closed p"
  shows "internalErr p' \<noteq> None \<and> restartExitChan_closed p' \<and> \<not> ppLock p'"
proof -
  let ?q = "p\<lparr>restartExitChan_closed := True, internalErr := Some closedErr\<rparr>"
  have l: "\<not> ppLock p" using assms by (auto simp: Close_def split: if_splits)
  obtain r' q' where c: "close ?q = (r', q')" by (cases "close ?q")
  then have "r' = Returns r" "q' = p'"
    using assms l by (auto simp: Close_def split: outcome.splits)
  then show ?thesis
    using close_keeps_error [OF c] close_keeps_signal [OF c] l by simp
qed

lemma Close_again:
  assumes "Close p = (Returns r, p')"
  shows "Close p' = (Returns (Some closedErr), p')"
proof (cases "restartExitChan_closed p")
  case True
  then show ?thesis using assms by (auto simp: Close_def split: if_splits)
next
  case False
  then show ?thesis using Close_records_error [OF assms False] by (simp add: Close_def)
qed

lemma Close_returns_on_live_worker:
  assumes "\<not> ppLock p" "cmd p = Some c" "pstate c = Running \<or> pstate c = Exited"
  shows "\<exists>r p'. Close p = (Returns r, p')"
  using assms by (auto simp: Close_def close_def)

lemma restart_records_error:
  assumes "restart w p = (Returns u, p', w')" "restartTimer p" "\<not> restartExitChan_closed p"
  shows "\<exists>r p1 err p2. close p = (Returns r, p1) \<and>
           initPpocr w p1 (exePath p1) (args p1) = (Returns err, p2, w') \<and>
           p' = p2\<lparr>internalErr := err\<rparr>"
  using assms
  by (auto simp: restart_def split: if_splits prod.splits outcome.splits)
text \<open>
  The session of the failing restart, step by step: \<^verbatim>\<open>NewPpocr\<close> starts the worker;
  at the first tick the restart kills it and \<^verbatim>\<open>cmd.Start\<close> fails; from then on
  \<^verbatim>\<open>close\<close> waits for a goroutine that does not exist.
\<close>

lemma ready_handshake: "initPpocr_loop (out_events ready_script) = Returns (Found, [])"
  by code_simp

lemma no_args_line: "CmdString no_args = []"
  by code_simp

lemma worker_is_file: "fileIsExist faulty_world worker_path"
  by (simp add: fileIsExist_def faulty_world_def world_of_def files_def)
lemma faulty_world_launches:
  "exec faulty_world path line 0 = Starts ready_script"
  "exec faulty_world path line (Suc n) = start_fails"
  "launched faulty_world = []"
  by (simp_all add: faulty_world_def world_of_def)

lemma ready_script_fields:
  "in_faults ready_script = []" "wait_err ready_script = Some (GoError ''signal: killed'')"
  "\<not> ended ready_script" "err_text ready_script = []"
  by (simp_all add: ready_script_def)

lemma NewPpocr_ready:
  "NewPpocr faulty_world worker_path no_args = (Returns (Some ready_Ppocr, None), launched_once)"
  by (simp add: NewPpocr_def worker_is_file initPpocr_def no_args_line Let_def
        faulty_world_launches ready_handshake init_error_def ready_script_fields
        ready_Ppocr_def launched_once_def)

lemma restart_fails:
  "restart launched_once ready_Ppocr = (Returns (), failed_Ppocr, launched_twice)"
  by (simp add: restart_def close_def ready_Ppocr_def initPpocr_def no_args_line Let_def
        launched_once_def launched_twice_def faulty_world_launches start_fails_def
        failed_Ppocr_def start_failed_def)

lemma restart_deadlocks:
  "restart launched_twice failed_Ppocr = (Hangs, failed_Ppocr\<lparr>ppLock := True\<rparr>, launched_twice)"
  by (simp add: restart_def close_def failed_Ppocr_def)

lemma Close_deadlocks:
  "Close failed_Ppocr =
     (Hangs, failed_Ppocr\<lparr>restartExitChan_closed := True, internalErr := Some closedErr,
                           ppLock := True\<rparr>)"
  by (simp add: Close_def close_def failed_Ppocr_def)

lemma failed_Ppocr_fields:
  "internalErr failed_Ppocr = Some start_failed" "\<not> ppLock failed_Ppocr"
  by (simp_all add: failed_Ppocr_def)

lemma Close_locked: "ppLock p \<Longrightarrow> Close p = (Hangs, p)"
  by (simp add: Close_def)
text \<open>
  Claim C4 does not hold of the code. After a restart whose \<^verbatim>\<open>cmd.Start\<close> has failed
  the error is recorded and \<^verbatim>\<open>OcrFile\<close> returns it; at the next tick \<^verbatim>\<open>restartTimer\<close>
  takes the mutex and calls \<^verbatim>\<open>close\<close>, which never returns; from then on \<^verbatim>\<open>OcrFile\<close>
  never returns, where the claim has it return the error at once.
\<close>

theorem deadlocked_restart_blocks_requests:
  "session go_json faulty_world worker_path no_args
     [Tick, CallOcrFile ''x.png'', Tick, CallOcrFile ''x.png'', CallOcr ''x''] =
   [Gives [] None, Gives [] None,
    Gives [] (Some (GoError ''OCR process start failed: fork/exec ./PaddleOCR-json: permission denied'')),
    Blocks, Blocks,
    Gives [] (Some (GoError ''OCR process start failed: fork/exec ./PaddleOCR-json: permission denied''))]"
  by (simp add: session_def NewPpocr_ready restart_fails restart_deadlocks
        OcrFile_def Ocr_def json_Marshal_imageData_def failed_Ppocr_fields start_failed_def)
text \<open>
  Claim C5 does not hold of the code. After a restart whose \<^verbatim>\<open>cmd.Start\<close> has failed,
  the first \<^verbatim>\<open>Close\<close> never returns, and it keeps the mutex, so the second \<^verbatim>\<open>Close\<close>
  never returns either, where the claim has it return an error.
\<close>

theorem Close_blocks_after_failed_start:
  "session go_json faulty_world worker_path no_args [Tick, CallClose, CallClose] =
   [Gives [] None, Gives [] None, Blocks, Blocks]"
  by (simp add: session_def NewPpocr_ready restart_fails Close_deadlocks Close_locked)

end
